theory Spec2Isabelle
  imports Main "HOL-Library.Word"
begin

section \<open>The BytePS staging pipeline\<close>

text \<open>
  A shallow embedding of the stage loops and public entry points of the BytePS core.
  One value of the record \<open>BytePSGlobal\<close> is the state of one process (one local rank):
  its configuration, its per-stage scheduled queues, its pending NCCL groups and the
  heap of shared atomic counters. Every call that leaves the process or that another
  stage can observe (collective library, accelerator runtime, signal channel, queue
  operations, the user callback, sleeping) is appended to the field \<open>trace\<close> in program
  order, so that the order of effects inside one loop iteration can be stated.

  A failed \<open>BPS_CHECK\<close> terminates the process. It is the left summand of the result
  type and carries the state in which the process stopped. \<open>NCCLCHECK\<close> and \<open>CUDA_CALL\<close>
  stop the process when the library reports an error; the library's answer comes from
  outside the program, and the embedding follows the runs in which the library succeeds.

  The enums and structs of the pipeline are declared in headers that are not among the
  sources; their members here are the ones that the source uses.
\<close>

subsection \<open>Data model\<close>

datatype QueueType =
  COORDINATE_REDUCE | REDUCE | COPYD2H | PUSH | PULL | COPYH2D
  | COORDINATE_BROADCAST | BROADCAST

datatype BytePSCommSignal = REDUCE_READY | BCAST_READY | DO_REDUCE | DO_BROADCAST | DO_GROUP

record BytePSCommMsg =
  src :: int
  signal :: BytePSCommSignal
  msg_key :: int

text \<open>
  Modelled from the spec: the status handed to a callback, success or a failure status
  (the source only ever builds \<open>Status::OK()\<close>).
\<close>

datatype Status = OK | Failure

text \<open>
  The tensor interface as the stages consume it: \<open>data()\<close> (only whether it is null is
  observed), \<open>size()\<close> in bytes, \<open>shape().num_elements()\<close> and \<open>dtype()\<close>.
\<close>

record Tensor =
  has_data :: bool
  size :: int
  num_elements :: int
  dtype :: int

text \<open>
  \<open>TensorTableEntry\<close>. A shared pointer that may be null is an option. \<open>counter_ptr\<close> is the
  address of a \<open>std::atomic_int\<close> in the heap \<open>counters\<close>; the counter and \<open>total_partnum\<close>
  are 32-bit patterns, compared by \<open>==\<close>. The callback is named by a number and its
  invocation is an event of the trace. \<open>ready_event\<close> is \<open>None\<close> when the front end gave
  no event, and otherwise tells whether the event has fired.
\<close>

record TensorTableEntry =
  tensor_name :: string
  key :: int
  ctx :: nat
  tensor :: "Tensor option"
  output_tensor :: "Tensor option"
  ready_event :: "bool option"
  device :: int
  priority :: int
  version :: int
  callback :: nat
  cpubuff :: "nat option"
  queue_list :: "QueueType list"
  offset :: int
  len :: int
  counter_ptr :: "nat option"
  total_partnum :: "32 word"

record NcclGroupEntry =
  tasks :: "TensorTableEntry list"
  queues :: "QueueType list"
  cuda_event :: nat

datatype LoopFunction =
  CoordinateReduceLoop | CoordinateBroadcastLoop | RootNcclLoop | NonRootNcclLoop
  | SyncNcclLoop | CopyDevice2HostLoop | PushLoop | PullLoop | CopyHost2DeviceLoop

text \<open>
  The events of the trace. A collective call is recorded with its byte offset, its
  element count and the root; a signal with the rank given to the channel and the
  message; a queue operation with the stage and the key or the bytes.
\<close>

datatype event =
  E_ncclGroupStart
  | E_ncclGroupEnd
  | E_ncclReduce int int int
  | E_ncclBroadcast int int int
  | E_broadcastSignal int BytePSCommMsg
  | E_sendSignal int BytePSCommMsg
  | E_cudaEventCreate nat
  | E_cudaEventRecord nat
  | E_cudaEventSynchronize nat
  | E_cudaEventDestroy nat
  | E_EnqueueNcclGroup NcclGroupEntry
  | E_addTask QueueType int
  | E_reportFinish QueueType int
  | E_callback nat Status
  | E_sleep nat

text \<open>
  Modelled from the spec: the class \<open>ScheduledQueue\<close> (scheduled_queue.cc is not among
  the sources), a stage's FIFO of work items with a credit counter. The queue keeps its
  items in enqueue order.
\<close>

record ScheduledQueue =
  sq :: "TensorTableEntry list"
  finished :: int

text \<open>Modelled from the spec: \<open>addTask(item)\<close> enqueues.\<close>

definition addTask :: "ScheduledQueue \<Rightarrow> TensorTableEntry \<Rightarrow> ScheduledQueue" where
  "addTask q t = q\<lparr>sq := sq q @ [t]\<rparr>"

text \<open>
  Modelled from the spec: an item is ready when its \<open>ready_event\<close> has fired, if present.
  The spec gives no rule for credit-based throttling, so the model never throttles.
\<close>

definition is_ready :: "TensorTableEntry \<Rightarrow> bool" where
  "is_ready t = (case ready_event t of None \<Rightarrow> True | Some fired \<Rightarrow> fired)"

text \<open>
  Modelled from the spec: \<open>getTask()\<close> is non-blocking and returns the ready item that
  comes first by priority ascending, then by enqueue order, or nothing.
\<close>

definition getTask :: "ScheduledQueue \<Rightarrow> (TensorTableEntry \<times> ScheduledQueue) option" where
  "getTask q =
     (case filter is_ready (sq q) of
        [] \<Rightarrow> None
      | r # rs \<Rightarrow>
          let t = fold (\<lambda>x best. if priority x < priority best then x else best) rs r
          in Some (t, q\<lparr>sq := remove1 t (sq q)\<rparr>))"

text \<open>
  Modelled from the spec: \<open>getTask(key)\<close> is the non-blocking keyed dequeue and returns
  nothing when no item has the key.
\<close>

definition getTask_key ::
  "ScheduledQueue \<Rightarrow> int \<Rightarrow> (TensorTableEntry \<times> ScheduledQueue) option" where
  "getTask_key q k =
     (case find (\<lambda>t. key t = k) (sq q) of
        None \<Rightarrow> None
      | Some t \<Rightarrow> Some (t, q\<lparr>sq := remove1 t (sq q)\<rparr>))"

text \<open>Modelled from the spec: \<open>reportFinish(bytes)\<close> updates the queue's credit counter.\<close>

definition reportFinish :: "ScheduledQueue \<Rightarrow> int \<Rightarrow> ScheduledQueue" where
  "reportFinish q n = q\<lparr>finished := finished q + n\<rparr>"

subsection \<open>The process state\<close>

text \<open>
  \<open>recv_queue\<close> holds the signals that \<open>recvSignal\<close> will deliver, each with the local rank
  it comes from. \<open>events_created\<close> numbers the accelerator events, \<open>heap_next\<close> is the
  next free address of the counter heap, \<open>threads\<close> the loops started by \<open>Start\<close>.
\<close>

record BytePSGlobal =
  local_rank :: int
  root :: int
  is_root_device :: bool
  local_size :: int
  is_distributed :: bool
  nccl_group_size :: int
  partition_bound :: int
  scheduled_queues :: "QueueType \<Rightarrow> ScheduledQueue"
  nccl_groups :: "NcclGroupEntry list"
  counters :: "nat \<Rightarrow> 32 word option"
  heap_next :: nat
  events_created :: nat
  recv_queue :: "(int \<times> BytePSCommMsg) list"
  threads :: "LoopFunction list"
  initialized :: bool
  trace :: "event list"

datatype check =
  QueueListEmpty | CounterPtrNull | RootInCoordinateLoop | RankIsNotRoot | RankIsRoot
  | TensorNull | TensorDataNull | SizeNotMultipleOfElements | DivisionByZero
  | SignalNotFromRoot | SignalNotDoReduce | TaskNotFound | QueueListSizeNotOne
  | OutputSizeMismatch | KeyListSizeMismatch | AccumulatedSizeMismatch | NullDereference

datatype stop = Fatal check | Blocked

type_synonym 'a result = "(stop \<times> BytePSGlobal) + ('a \<times> BytePSGlobal)"

definition emit :: "event \<Rightarrow> BytePSGlobal \<Rightarrow> BytePSGlobal" where
  "emit ev s = s\<lparr>trace := trace s @ [ev]\<rparr>"

definition GetScheduledQueue_addTask ::
  "QueueType \<Rightarrow> TensorTableEntry \<Rightarrow> BytePSGlobal \<Rightarrow> BytePSGlobal" where
  "GetScheduledQueue_addTask op t s =
     emit (E_addTask op (key t))
       (s\<lparr>scheduled_queues := (scheduled_queues s)(op := addTask (scheduled_queues s op) t)\<rparr>)"

definition GetScheduledQueue_reportFinish ::
  "QueueType \<Rightarrow> int \<Rightarrow> BytePSGlobal \<Rightarrow> BytePSGlobal" where
  "GetScheduledQueue_reportFinish op n s =
     emit (E_reportFinish op n)
       (s\<lparr>scheduled_queues := (scheduled_queues s)(op := reportFinish (scheduled_queues s op) n)\<rparr>)"

subsection \<open>FinishOrProceed\<close>

text \<open>
  The head stage is erased from the item's \<open>queue_list\<close>. With stages left the item goes
  to the queue of the new head. With none left, \<open>fetch_add(1)\<close> on the shared counter
  returns the value before the increment, and the callback runs when that value is
  \<open>total_partnum - 1\<close>. A null \<open>counter_ptr\<close> fails its check; a pointer into no
  allocated counter is a null dereference.
\<close>

definition FinishOrProceed :: "TensorTableEntry \<Rightarrow> BytePSGlobal \<Rightarrow> unit result" where
  "FinishOrProceed task s =
     (case queue_list task of
        [] \<Rightarrow> Inl (Fatal QueueListEmpty, s)
      | this_op # rest \<Rightarrow>
          (if rest \<noteq> [] then
             Inr ((), GetScheduledQueue_addTask (hd rest) (task\<lparr>queue_list := rest\<rparr>) s)
           else
             (case counter_ptr task of
                None \<Rightarrow> Inl (Fatal CounterPtrNull, s)
              | Some c \<Rightarrow>
                  (case counters s c of
                     None \<Rightarrow> Inl (Fatal NullDereference, s)
                   | Some v \<Rightarrow>
                       let s1 = s\<lparr>counters := (counters s)(c \<mapsto> v + 1)\<rparr>
                       in if v = total_partnum task - 1
                          then Inr ((), emit (E_callback (callback task) OK) s1)
                          else Inr ((), s1)))))"

text \<open>
  The partitions of one user tensor reach the end of their queue lists one after the
  other; \<open>fetch_add\<close> is atomic, so the calls take effect in the order of their
  increments. \<open>FinishOrProceed_each\<close> is that sequence of calls. \<open>last_stage_of c n cb t\<close>
  says that \<open>t\<close> is a partition at its last stage that shares the counter at address \<open>c\<close>,
  the partition count \<open>n\<close> and the callback \<open>cb\<close>.
\<close>

fun FinishOrProceed_each :: "TensorTableEntry list \<Rightarrow> BytePSGlobal \<Rightarrow> unit result" where
  "FinishOrProceed_each [] s = Inr ((), s)"
| "FinishOrProceed_each (t # ts) s =
     (case FinishOrProceed t s of
        Inl e \<Rightarrow> Inl e
      | Inr (_, s1) \<Rightarrow> FinishOrProceed_each ts s1)"

definition last_stage_of ::
  "nat \<Rightarrow> 32 word \<Rightarrow> nat \<Rightarrow> TensorTableEntry \<Rightarrow> bool" where
  "last_stage_of c n cb t =
     (length (queue_list t) = 1 \<and> counter_ptr t = Some c \<and> total_partnum t = n \<and> callback t = cb)"

text \<open>The state with the counter at address \<open>c\<close> set to \<open>v\<close>.\<close>

definition set_counter :: "nat \<Rightarrow> 32 word \<Rightarrow> BytePSGlobal \<Rightarrow> BytePSGlobal" where
  "set_counter c v s = s\<lparr>counters := (counters s)(c \<mapsto> v)\<rparr>"

subsection \<open>Constants and arithmetic of the source language\<close>

text \<open>
  Modelled from the spec: \<open>CPU_DEVICE_ID\<close>, the "CPU sentinel" of the field \<open>device\<close>; its
  declaration is not among the sources. No general theorem below depends on its value.
\<close>

definition CPU_DEVICE_ID :: int where
  "CPU_DEVICE_ID = - 1"

text \<open>
  Division of C++ integers truncates towards zero. \<open>int32\<close> is the value of a 32-bit
  \<open>int\<close> after a wrapping conversion, \<open>uint32\<close> that of an \<open>unsigned int\<close>.
\<close>

definition cdiv :: "int \<Rightarrow> int \<Rightarrow> int" where
  "cdiv a b = sgn a * sgn b * (\<bar>a\<bar> div \<bar>b\<bar>)"

definition cmod :: "int \<Rightarrow> int \<Rightarrow> int" where
  "cmod a b = a - b * cdiv a b"

definition int32 :: "int \<Rightarrow> int" where
  "int32 x = sint (word_of_int x :: 32 word)"

definition uint32 :: "int \<Rightarrow> int" where
  "uint32 x = x mod 2 ^ 32"

text \<open>\<open>std::to_string\<close> on a non-negative \<open>int\<close>: the decimal digits.\<close>

fun to_string :: "nat \<Rightarrow> string" where
  "to_string n =
     (if n < 10 then [''0123456789'' ! n]
      else to_string (n div 10) @ [''0123456789'' ! (n mod 10)])"

declare to_string.simps [simp del]

subsection \<open>The coordinate stages\<close>

text \<open>
  \<open>RunCoordinateLoopOnce\<close>: an idle iteration sleeps 1000 ns. Otherwise the item is
  advanced first and the READY signal is sent to the root afterwards, then the bytes
  are reported to the stage's own queue. The message carries \<open>int key = task->key\<close>,
  the key converted to a 32-bit \<open>int\<close>.
\<close>

definition RunCoordinateLoopOnce :: "QueueType \<Rightarrow> BytePSGlobal \<Rightarrow> bool result" where
  "RunCoordinateLoopOnce this_op s =
     (case getTask (scheduled_queues s this_op) of
        None \<Rightarrow> Inr (True, emit (E_sleep 1000) s)
      | Some (task, q') \<Rightarrow>
          let s0 = s\<lparr>scheduled_queues := (scheduled_queues s)(this_op := q')\<rparr>
          in if is_root_device s0 then Inl (Fatal RootInCoordinateLoop, s0)
             else
               (case FinishOrProceed task s0 of
                  Inl e \<Rightarrow> Inl e
                | Inr (_, s1) \<Rightarrow>
                    let msg = \<lparr>src = local_rank s1,
                               signal = (if this_op = COORDINATE_REDUCE
                                         then REDUCE_READY else BCAST_READY),
                               msg_key = int32 (key task)\<rparr>;
                        s2 = emit (E_sendSignal (root s1) msg) s1
                    in Inr (True, GetScheduledQueue_reportFinish this_op (len task) s2)))"

subsection \<open>The NCCL stages\<close>

text \<open>
  Modelled from the spec: \<open>EnqueueNcclGroup\<close> of the registry (global.cc is not among the
  sources), which holds "a queue of pending NCCL Group Entries".
\<close>

definition EnqueueNcclGroup :: "NcclGroupEntry \<Rightarrow> BytePSGlobal \<Rightarrow> BytePSGlobal" where
  "EnqueueNcclGroup e s =
     emit (E_EnqueueNcclGroup e) (s\<lparr>nccl_groups := nccl_groups s @ [e]\<rparr>)"

text \<open>
  Modelled from the spec: \<open>DequeueNcclGroup\<close> of the registry takes the oldest pending
  group entry, or nothing.
\<close>

definition DequeueNcclGroup :: "BytePSGlobal \<Rightarrow> (NcclGroupEntry \<times> BytePSGlobal) option" where
  "DequeueNcclGroup s =
     (case nccl_groups s of
        [] \<Rightarrow> None
      | e # rest \<Rightarrow> Some (e, s\<lparr>nccl_groups := rest\<rparr>))"

text \<open>\<open>std::make_shared<NcclGroupEntry>()\<close>; the event is set before the entry is used.\<close>

definition new_NcclGroupEntry :: NcclGroupEntry where
  "new_NcclGroupEntry = \<lparr>tasks = [], queues = [], cuda_event = 0\<rparr>"

text \<open>
  The body of the inner \<open>for\<close> loop of \<open>RunRootNcclLoopOnce\<close> for one pulled item, after
  the item and its queue have been pushed on the group entry. The tensor of the stage
  must not be null. On an accelerator it must have data and a byte size that is a
  multiple of its element count (a count of zero is a division by zero); with more
  than one local rank the signal is broadcast and the collective issued, whose element
  count \<open>len / unit_len\<close> divides by \<open>unit_len\<close>. (The TRACE log line has the same
  quotient; it is evaluated only at that log level, which the model has off.) The
  signal carries \<open>int key = task->key\<close>, the key converted to a 32-bit \<open>int\<close>.
\<close>

definition RootNcclIssue :: "QueueType \<Rightarrow> TensorTableEntry \<Rightarrow> BytePSGlobal \<Rightarrow> unit result" where
  "RootNcclIssue this_op task s0 =
     (case (if this_op = REDUCE then tensor task else output_tensor task) of
        None \<Rightarrow> Inl (Fatal TensorNull, s0)
      | Some tn \<Rightarrow>
          if device task \<noteq> CPU_DEVICE_ID then
            if \<not> has_data tn then Inl (Fatal TensorDataNull, s0)
            else if num_elements tn = 0 then Inl (Fatal DivisionByZero, s0)
            else if cmod (size tn) (num_elements tn) \<noteq> 0
              then Inl (Fatal SizeNotMultipleOfElements, s0)
            else if local_size s0 > 1 then
              let unit_len = cdiv (size tn) (num_elements tn);
                  msg = \<lparr>src = local_rank s0,
                         signal = (if this_op = REDUCE then DO_REDUCE else DO_BROADCAST),
                         msg_key = int32 (key task)\<rparr>;
                  s1 = emit (E_broadcastSignal (local_rank s0) msg) s0
              in if unit_len = 0 then Inl (Fatal DivisionByZero, s1)
                 else Inr ((), emit ((if this_op = REDUCE then E_ncclReduce else E_ncclBroadcast)
                                       (offset task) (cdiv (len task) unit_len) (root s1)) s1)
            else Inr ((), s0)
          else Inr ((), s0))"

text \<open>
  The inner \<open>for\<close> loop over one stage: at most \<open>n\<close> items are pulled, and the loop breaks
  at the first empty answer of \<open>getTask\<close>.
\<close>

fun RootNcclPull ::
  "QueueType \<Rightarrow> nat \<Rightarrow> NcclGroupEntry \<Rightarrow> BytePSGlobal \<Rightarrow> NcclGroupEntry result" where
  "RootNcclPull this_op 0 e s = Inr (e, s)"
| "RootNcclPull this_op (Suc n) e s =
     (case getTask (scheduled_queues s this_op) of
        None \<Rightarrow> Inr (e, s)
      | Some (task, q') \<Rightarrow>
          (case RootNcclIssue this_op task
                  (s\<lparr>scheduled_queues := (scheduled_queues s)(this_op := q')\<rparr>) of
             Inl x \<Rightarrow> Inl x
           | Inr (_, s1) \<Rightarrow>
               RootNcclPull this_op n
                 (e\<lparr>tasks := tasks e @ [task], queues := queues e @ [this_op]\<rparr>) s1))"

text \<open>
  \<open>RunRootNcclLoopOnce\<close>: the group is opened, the REDUCE queue and then the BROADCAST
  queue are pulled, each up to the group size. With items pulled, \<open>DO_GROUP\<close> is
  broadcast, the group is ended, an event is created and recorded, and the entry is
  handed on. With none, the group is ended and the loop sleeps 1000 ns.
\<close>

definition RunRootNcclLoopOnce :: "BytePSGlobal \<Rightarrow> bool result" where
  "RunRootNcclLoopOnce s =
     (if local_rank s \<noteq> root s then Inl (Fatal RankIsNotRoot, s)
      else
        (case RootNcclPull REDUCE (nat (nccl_group_size s)) new_NcclGroupEntry
                (emit E_ncclGroupStart s) of
           Inl x \<Rightarrow> Inl x
         | Inr (e1, s1) \<Rightarrow>
             (case RootNcclPull BROADCAST (nat (nccl_group_size s1)) e1 s1 of
                Inl x \<Rightarrow> Inl x
              | Inr (e2, s2) \<Rightarrow>
                  if tasks e2 \<noteq> [] then
                    let msg = \<lparr>src = local_rank s2, signal = DO_GROUP, msg_key = 0\<rparr>;
                        s3 = emit (E_broadcastSignal (local_rank s2) msg) s2;
                        s4 = emit E_ncclGroupEnd s3;
                        ev = events_created s4;
                        s5 = emit (E_cudaEventCreate ev) (s4\<lparr>events_created := Suc ev\<rparr>);
                        s6 = emit (E_cudaEventRecord ev) s5
                    in Inr (True, EnqueueNcclGroup (e2\<lparr>cuda_event := ev\<rparr>) s6)
                  else Inr (True, emit (E_sleep 1000) (emit E_ncclGroupEnd s2)))))"

text \<open>
  The collective of \<open>RunNonRootNcclLoopOnce\<close> for one item found by its key, after the item
  has been pushed on the group entry. On an accelerator the tensor of the stage is
  dereferenced without a check and must have data; \<open>tensor->data() + offset\<close> is taken to
  be non-null when \<open>data()\<close> is. \<open>unit_len\<close> and the element count are divisions.
\<close>

definition NonRootNcclIssue :: "QueueType \<Rightarrow> TensorTableEntry \<Rightarrow> BytePSGlobal \<Rightarrow> unit result" where
  "NonRootNcclIssue this_op task s1 =
     (if device task \<noteq> CPU_DEVICE_ID then
        (case (if this_op = REDUCE then tensor task else output_tensor task) of
           None \<Rightarrow> Inl (Fatal NullDereference, s1)
         | Some tn \<Rightarrow>
             if \<not> has_data tn then Inl (Fatal TensorDataNull, s1)
             else if num_elements tn = 0 then Inl (Fatal DivisionByZero, s1)
             else if cdiv (size tn) (num_elements tn) = 0 then Inl (Fatal DivisionByZero, s1)
             else Inr ((), emit ((if this_op = REDUCE then E_ncclReduce else E_ncclBroadcast)
                                   (offset task)
                                   (cdiv (len task) (cdiv (size tn) (num_elements tn)))
                                   (root s1)) s1))
      else Inr ((), s1))"

text \<open>
  The \<open>while (1)\<close> loop of \<open>RunNonRootNcclLoopOnce\<close>, by recursion on the signals that
  \<open>recvSignal\<close> delivers. With no signal left the stage is blocked in \<open>recvSignal\<close>.
  \<open>DO_GROUP\<close> leaves the loop. Any other signal is taken as BROADCAST if it is
  \<open>DO_BROADCAST\<close> and must be \<open>DO_REDUCE\<close> otherwise; the keyed item must be found and
  must have exactly one stage left. Only the group's \<open>tasks\<close> are pushed, never its
  \<open>queues\<close>.
\<close>

fun NonRootNcclSignals ::
  "(int \<times> BytePSCommMsg) list \<Rightarrow> NcclGroupEntry \<Rightarrow> BytePSGlobal \<Rightarrow> NcclGroupEntry result" where
  "NonRootNcclSignals [] e s = Inl (Blocked, s\<lparr>recv_queue := []\<rparr>)"
| "NonRootNcclSignals ((from, msg) # pending) e s =
     (let s0 = s\<lparr>recv_queue := pending\<rparr>
      in if from \<noteq> root s0 then Inl (Fatal SignalNotFromRoot, s0)
         else if signal msg = DO_GROUP then Inr (e, s0)
         else if signal msg \<noteq> DO_BROADCAST \<and> signal msg \<noteq> DO_REDUCE
           then Inl (Fatal SignalNotDoReduce, s0)
         else
           let this_op = (if signal msg = DO_BROADCAST then BROADCAST else REDUCE)
           in (case getTask_key (scheduled_queues s0 this_op) (msg_key msg) of
                 None \<Rightarrow> Inl (Fatal TaskNotFound, s0)
               | Some (task, q') \<Rightarrow>
                   let s1 = s0\<lparr>scheduled_queues := (scheduled_queues s0)(this_op := q')\<rparr>
                   in if length (queue_list task) \<noteq> 1 then Inl (Fatal QueueListSizeNotOne, s1)
                      else
                        (case NonRootNcclIssue this_op task s1 of
                           Inl x \<Rightarrow> Inl x
                         | Inr (_, s2) \<Rightarrow>
                             NonRootNcclSignals pending (e\<lparr>tasks := tasks e @ [task]\<rparr>) s2)))"

definition RunNonRootNcclLoopOnce :: "BytePSGlobal \<Rightarrow> bool result" where
  "RunNonRootNcclLoopOnce s =
     (if local_rank s = root s then Inl (Fatal RankIsRoot, s)
      else
        (case NonRootNcclSignals (recv_queue s) new_NcclGroupEntry (emit E_ncclGroupStart s) of
           Inl x \<Rightarrow> Inl x
         | Inr (e1, s1) \<Rightarrow>
             let s2 = emit E_ncclGroupEnd s1;
                 ev = events_created s2;
                 s3 = emit (E_cudaEventCreate ev) (s2\<lparr>events_created := Suc ev\<rparr>);
                 s4 = emit (E_cudaEventRecord ev) s3
             in Inr (True, EnqueueNcclGroup (e1\<lparr>cuda_event := ev\<rparr>) s4)))"

text \<open>
  The \<open>for\<close> loop of \<open>RunSyncNcclOnce\<close> from index \<open>i\<close>: every item is advanced, and its
  bytes are reported on \<open>queues[i]\<close> only if the group entry has a queue at that index.
\<close>

function SyncNcclTasks :: "nat \<Rightarrow> NcclGroupEntry \<Rightarrow> BytePSGlobal \<Rightarrow> unit result" where
  "SyncNcclTasks i e s =
     (if i < length (tasks e) then
        (case FinishOrProceed (tasks e ! i) s of
           Inl x \<Rightarrow> Inl x
         | Inr (_, s1) \<Rightarrow>
             SyncNcclTasks (Suc i) e
               (if length (queues e) > i
                then GetScheduledQueue_reportFinish (queues e ! i) (len (tasks e ! i)) s1
                else s1))
      else Inr ((), s))"
  by pat_completeness auto
termination
  by (relation "measure (\<lambda>(i, e, s). length (tasks e) - i)") auto

declare SyncNcclTasks.simps [simp del]

definition RunSyncNcclOnce :: "BytePSGlobal \<Rightarrow> bool result" where
  "RunSyncNcclOnce s =
     (case DequeueNcclGroup s of
        None \<Rightarrow> Inr (True, emit (E_sleep 1000) s)
      | Some (nccl_entry, s0) \<Rightarrow>
          (case SyncNcclTasks 0 nccl_entry
                  (emit (E_cudaEventSynchronize (cuda_event nccl_entry)) s0) of
             Inl x \<Rightarrow> Inl x
           | Inr (_, s1) \<Rightarrow> Inr (True, emit (E_cudaEventDestroy (cuda_event nccl_entry)) s1)))"


subsection \<open>Partitioning and enqueueing\<close>

text \<open>\<open>BPSContext\<close>, the per-tensor metadata.\<close>

record BPSContext =
  ctx_cpubuff :: "nat option"
  buff_len :: nat
  key_list :: "int list"
  ctx_initialized :: bool
  reuse_buff :: bool

text \<open>
  One pass of the \<open>while\<close> loop of \<open>PartitionTensor\<close> builds a new entry: every field but
  the key is copied or computed, the key is left for \<open>EnqueueTensor\<close> (a new entry
  has key 0 here).
\<close>

definition new_partition ::
  "TensorTableEntry \<Rightarrow> nat \<Rightarrow> int \<Rightarrow> int \<Rightarrow> TensorTableEntry" where
  "new_partition entry i accumulated part_len =
     \<lparr>tensor_name = tensor_name entry @ ''_'' @ to_string i,
      key = 0,
      ctx = ctx entry,
      tensor = tensor entry,
      output_tensor = output_tensor entry,
      ready_event = ready_event entry,
      device = device entry,
      priority = priority entry,
      version = version entry,
      callback = callback entry,
      cpubuff = cpubuff entry,
      queue_list = queue_list entry,
      offset = accumulated,
      len = part_len,
      counter_ptr = counter_ptr entry,
      total_partnum = total_partnum entry\<rparr>"

text \<open>
  The loop itself. \<open>accumulated\<close> is declared \<open>auto accumulated = 0\<close>, a 32-bit \<open>int\<close>, so
  the sum wraps; \<open>size\<close> is the 64-bit byte count of the tensor and \<open>bound\<close> the partition
  bound. The loop need not end (a bound of 0 never advances), so it is a partial
  function: \<open>None\<close> is a loop that never returns.
\<close>

partial_function (option) PartitionTensor_loop ::
  "TensorTableEntry \<Rightarrow> int \<Rightarrow> int \<Rightarrow> int \<Rightarrow> nat \<Rightarrow> TensorTableEntry list
     \<Rightarrow> TensorTableEntry list option" where
  "PartitionTensor_loop entry sz bound accumulated i partitions =
     (if accumulated < sz then
        PartitionTensor_loop entry sz bound
          (int32 (accumulated
                  + (if sz - accumulated > bound then bound else sz - accumulated)))
          (Suc i)
          (partitions
           @ [new_partition entry i accumulated
                (if sz - accumulated > bound then bound else sz - accumulated)])
      else Some partitions)"

text \<open>
  \<open>entry->tensor ? entry->tensor->size() : entry->output->size()\<close>; \<open>None\<close> is the
  dereference of a null \<open>output\<close>.
\<close>

definition entry_size :: "TensorTableEntry \<Rightarrow> int option" where
  "entry_size entry =
     (case tensor entry of
        Some t \<Rightarrow> Some (size t)
      | None \<Rightarrow> (case output_tensor entry of Some t \<Rightarrow> Some (size t) | None \<Rightarrow> None))"

text \<open>\<open>PartitionTensor\<close>: the counter pointer must not be null.\<close>

definition PartitionTensor ::
  "TensorTableEntry \<Rightarrow> TensorTableEntry list \<Rightarrow> BytePSGlobal
     \<Rightarrow> (TensorTableEntry list) result option" where
  "PartitionTensor entry partitions s =
     (case counter_ptr entry of
        None \<Rightarrow> Some (Inl (Fatal CounterPtrNull, s))
      | Some c \<Rightarrow>
          (case entry_size entry of
             None \<Rightarrow> Some (Inl (Fatal NullDereference, s))
           | Some sz \<Rightarrow>
               (case PartitionTensor_loop entry sz (partition_bound s) 0 0 partitions of
                  None \<Rightarrow> None
                | Some ps \<Rightarrow> Some (Inr (ps, s)))))"

text \<open>
  The enqueue loop of \<open>EnqueueTensor\<close>: partition \<open>i\<close> gets key \<open>key_list[i]\<close> and goes to
  the queue of the first stage; the lengths are summed in an \<open>unsigned int\<close>.
\<close>

definition EnqueueTensor_loop ::
  "int list \<Rightarrow> QueueType \<Rightarrow> TensorTableEntry list \<Rightarrow> BytePSGlobal \<Rightarrow> int \<times> BytePSGlobal" where
  "EnqueueTensor_loop keys op partitions s =
     fold (\<lambda>i (accumulated, s').
             let task = (partitions ! i)\<lparr>key := keys ! i\<rparr>
             in (uint32 (accumulated + len task), GetScheduledQueue_addTask op task s'))
          [0..<length partitions] (0, s)"

text \<open>
  \<open>EnqueueTensor\<close>. With both tensors given their sizes must agree. The entry gets a
  fresh counter holding 0 (\<open>make_shared<atomic_int>(0)\<close>) and
  \<open>total_partnum = key_list.size()\<close>. After partitioning the number of partitions must be
  the number of keys. An empty queue list gives the callback at once; otherwise every
  partition is enqueued and the summed lengths must be the tensor size.
\<close>

definition size_mismatch :: "Tensor option \<Rightarrow> Tensor option \<Rightarrow> bool" where
  "size_mismatch input output =
     (case input of
        None \<Rightarrow> False
      | Some a \<Rightarrow> (case output of None \<Rightarrow> False | Some b \<Rightarrow> size a \<noteq> size b))"

definition make_shared_counter :: "BytePSGlobal \<Rightarrow> BytePSGlobal" where
  "make_shared_counter s =
     s\<lparr>counters := (counters s)(heap_next s \<mapsto> 0), heap_next := Suc (heap_next s)\<rparr>"

definition EnqueueTensor_entry ::
  "BPSContext \<Rightarrow> Tensor option \<Rightarrow> Tensor option \<Rightarrow> bool option \<Rightarrow> string \<Rightarrow> int \<Rightarrow> int
     \<Rightarrow> int \<Rightarrow> nat \<Rightarrow> QueueType list \<Rightarrow> nat \<Rightarrow> TensorTableEntry" where
  "EnqueueTensor_entry context input output ready name dev prio ver cb ql c =
     \<lparr>tensor_name = name, key = 0, ctx = 0, tensor = input, output_tensor = output,
      ready_event = ready, device = dev, priority = prio, version = ver,
      callback = cb, cpubuff = ctx_cpubuff context, queue_list = ql,
      offset = 0, len = 0, counter_ptr = Some c,
      total_partnum = of_nat (length (key_list context))\<rparr>"

definition EnqueueTensor ::
  "BPSContext \<Rightarrow> Tensor option \<Rightarrow> Tensor option \<Rightarrow> bool option \<Rightarrow> string \<Rightarrow> int \<Rightarrow> int
     \<Rightarrow> int \<Rightarrow> nat \<Rightarrow> QueueType list \<Rightarrow> BytePSGlobal \<Rightarrow> Status result option" where
  "EnqueueTensor context input output ready name dev prio ver cb ql s =
     (if size_mismatch input output then Some (Inl (Fatal OutputSizeMismatch, s))
      else
        let e = EnqueueTensor_entry context input output ready name dev prio ver cb ql
                  (heap_next s)
        in (case PartitionTensor e [] (make_shared_counter s) of
              None \<Rightarrow> None
            | Some (Inl x) \<Rightarrow> Some (Inl x)
            | Some (Inr (partitions, s1)) \<Rightarrow>
                if length (key_list context) \<noteq> length partitions
                  then Some (Inl (Fatal KeyListSizeMismatch, s1))
                else if length (queue_list e) = 0
                  then Some (Inr (OK, emit (E_callback (callback e) OK) s1))
                else
                  (case EnqueueTensor_loop (key_list context) (hd (queue_list e)) partitions s1 of
                     (accumulated, s2) \<Rightarrow>
                       if Some accumulated \<noteq> entry_size e
                         then Some (Inl (Fatal AccumulatedSizeMismatch, s2))
                       else Some (Inr (OK, s2)))))"

subsection \<open>Starting the loops\<close>

text \<open>
  Modelled from the spec: \<open>BytePSGlobal::Init\<close> (global.cc is not among the sources)
  builds the registry, of which the model keeps that it is initialized. The role and the
  deployment (\<open>is_root_device\<close>, \<open>is_distributed\<close>) are configuration.
\<close>

definition Init :: "BytePSGlobal \<Rightarrow> BytePSGlobal" where
  "Init s = s\<lparr>initialized := True\<rparr>"

text \<open>
  Modelled from the spec: \<open>BytePSGlobal::Start(loops)\<close> launches one worker thread per
  loop.
\<close>

definition Start :: "LoopFunction list \<Rightarrow> BytePSGlobal \<Rightarrow> BytePSGlobal" where
  "Start func s = s\<lparr>threads := threads s @ func\<rparr>"

text \<open>The vector \<open>func\<close> that \<open>byteps_init\<close> fills by \<open>push_back\<close>, and \<open>byteps_init\<close>.\<close>

definition byteps_init_func :: "BytePSGlobal \<Rightarrow> LoopFunction list" where
  "byteps_init_func s =
     (if is_root_device s then
        ([] @ [RootNcclLoop] @ [SyncNcclLoop])
        @ (if is_distributed s
           then [CopyDevice2HostLoop] @ [PushLoop] @ [PullLoop] @ [CopyHost2DeviceLoop]
           else [])
      else [] @ [CoordinateReduceLoop] @ [NonRootNcclLoop] @ [SyncNcclLoop]
           @ [CoordinateBroadcastLoop])"

definition byteps_init :: "BytePSGlobal \<Rightarrow> BytePSGlobal" where
  "byteps_init s = Start (byteps_init_func (Init s)) (Init s)"

subsection \<open>The partitioner as the specification describes it\<close>

text \<open>
  The specification's partitioner: \<open>ceil(S / B)\<close> partitions, the \<open>i\<close>-th with offset \<open>i * B\<close>,
  length \<open>min(B, S - i * B)\<close> and the name extended by \<open>_i\<close>, all other fields copied.
  It is compared with the loop of the source below.
\<close>

definition partition_count :: "int \<Rightarrow> int \<Rightarrow> nat" where
  "partition_count S B = nat ((S + B - 1) div B)"

definition spec_partitions :: "TensorTableEntry \<Rightarrow> int \<Rightarrow> int \<Rightarrow> TensorTableEntry list" where
  "spec_partitions entry S B =
     map (\<lambda>i. new_partition entry i (int i * B) (min B (S - int i * B)))
       [0..<partition_count S B]"

text \<open>
  The items that the enqueue loop hands to the queue, and the state after a list of
  items has been enqueued on one stage.
\<close>

definition assign_keys :: "int list \<Rightarrow> TensorTableEntry list \<Rightarrow> TensorTableEntry list" where
  "assign_keys keys partitions =
     map (\<lambda>i. (partitions ! i)\<lparr>key := keys ! i\<rparr>) [0..<length partitions]"

definition enqueue_all :: "QueueType \<Rightarrow> TensorTableEntry list \<Rightarrow> BytePSGlobal \<Rightarrow> BytePSGlobal" where
  "enqueue_all op ts s =
     s\<lparr>scheduled_queues :=
          (scheduled_queues s)(op := (scheduled_queues s op)\<lparr>sq := sq (scheduled_queues s op) @ ts\<rparr>),
       trace := trace s @ map (\<lambda>t. E_addTask op (key t)) ts\<rparr>"

subsection \<open>Events of one iteration\<close>

text \<open>
  The events that the root's loop emits for one pulled item (the signal \<open>DO_REDUCE\<close> or
  \<open>DO_BROADCAST\<close> and the collective), the message \<open>{rank, DO_GROUP, 0}\<close>, and the order
  of two events in a trace: \<open>b\<close> occurs after the first occurrence of \<open>a\<close>.
\<close>

fun is_item_event :: "event \<Rightarrow> bool" where
  "is_item_event (E_ncclReduce _ _ _) = True"
| "is_item_event (E_ncclBroadcast _ _ _) = True"
| "is_item_event (E_broadcastSignal _ msg) = (signal msg = DO_REDUCE \<or> signal msg = DO_BROADCAST)"
| "is_item_event _ = False"

definition occurs_before :: "event \<Rightarrow> event \<Rightarrow> event list \<Rightarrow> bool" where
  "occurs_before a b tr = (b \<in> set (drop 1 (dropWhile (\<lambda>x. x \<noteq> a) tr)))"

definition DO_GROUP_msg :: "int \<Rightarrow> BytePSCommMsg" where
  "DO_GROUP_msg rank = \<lparr>src = rank, signal = DO_GROUP, msg_key = 0\<rparr>"

text \<open>
  An item that passes the checks of the root's loop for its stage, on a node with the
  given number of local ranks.
\<close>

definition root_item_ok :: "int \<Rightarrow> QueueType \<Rightarrow> TensorTableEntry \<Rightarrow> bool" where
  "root_item_ok ranks this_op task =
     (case (if this_op = REDUCE then tensor task else output_tensor task) of
        None \<Rightarrow> False
      | Some tn \<Rightarrow>
          device task \<noteq> CPU_DEVICE_ID \<longrightarrow>
            has_data tn \<and> num_elements tn \<noteq> 0 \<and> cmod (size tn) (num_elements tn) = 0 \<and>
            (1 < ranks \<longrightarrow> cdiv (size tn) (num_elements tn) \<noteq> 0))"

subsection \<open>The sync stage on the items of a group\<close>

text \<open>
  The calls that the sync stage makes on a group whose items all have a recorded queue:
  each item is advanced and then its bytes are reported on its queue. (On a group with
  no recorded queues the calls are those of \<open>FinishOrProceed_each\<close>.) The events that
  report bytes.
\<close>

fun FinishOrProceed_report_each ::
  "(TensorTableEntry \<times> QueueType) list \<Rightarrow> BytePSGlobal \<Rightarrow> unit result" where
  "FinishOrProceed_report_each [] s = Inr ((), s)"
| "FinishOrProceed_report_each ((t, q) # rest) s =
     (case FinishOrProceed t s of
        Inl e \<Rightarrow> Inl e
      | Inr (_, s1) \<Rightarrow>
          FinishOrProceed_report_each rest (GetScheduledQueue_reportFinish q (len t) s1))"

fun is_reportFinish :: "event \<Rightarrow> bool" where
  "is_reportFinish (E_reportFinish _ _) = True"
| "is_reportFinish _ = False"

subsection \<open>Visibility of a keyed item\<close>


subsection \<open>Concrete inputs\<close>

text \<open>
  A process of a node with two local ranks (rank 0 is the root) with empty queues and one
  allocated counter, a tensor of 16 bytes, and a work item over it; the theorems are
  evaluated on them.
\<close>

definition empty_queue :: ScheduledQueue where
  "empty_queue = \<lparr>sq = [], finished = 0\<rparr>"

definition example_global :: "bool \<Rightarrow> BytePSGlobal" where
  "example_global is_root =
     \<lparr>local_rank = (if is_root then 0 else 1), root = 0, is_root_device = is_root,
      local_size = 2, is_distributed = False, nccl_group_size = 4, partition_bound = 1024,
      scheduled_queues = (\<lambda>_. empty_queue), nccl_groups = [],
      counters = [0 \<mapsto> 0], heap_next = 1, events_created = 0, recv_queue = [],
      threads = [], initialized = True, trace = []\<rparr>"

definition example_tensor :: Tensor where
  "example_tensor = \<lparr>has_data = True, size = 16, num_elements = 4, dtype = 0\<rparr>"

definition example_task :: "int \<Rightarrow> QueueType list \<Rightarrow> TensorTableEntry" where
  "example_task k ql =
     \<lparr>tensor_name = ''grad'', key = k, ctx = 0, tensor = Some example_tensor,
      output_tensor = Some example_tensor, ready_event = None, device = 0, priority = 0,
      version = 0, callback = 7, cpubuff = None, queue_list = ql, offset = 8 * k, len = 8,
      counter_ptr = Some 0, total_partnum = 2\<rparr>"

definition example_context :: "int list \<Rightarrow> BPSContext" where
  "example_context keys =
     \<lparr>ctx_cpubuff = None, buff_len = 0, key_list = keys, ctx_initialized = True,
      reuse_buff = False\<rparr>"

text \<open>
  The state and the stopping reason of a result, a state with the given items on one
  queue, and the queue list that the front end gives an item on a non-root rank.
\<close>

definition state_of :: "'a result \<Rightarrow> BytePSGlobal" where
  "state_of r = (case r of Inl (_, s) \<Rightarrow> s | Inr (_, s) \<Rightarrow> s)"

definition stopped :: "'a result \<Rightarrow> stop option" where
  "stopped r = (case r of Inl (x, _) \<Rightarrow> Some x | Inr _ \<Rightarrow> None)"

definition non_root_queue_list :: "QueueType list" where
  "non_root_queue_list = [COORDINATE_REDUCE, REDUCE, COORDINATE_BROADCAST, BROADCAST]"

definition with_queue :: "QueueType \<Rightarrow> TensorTableEntry list \<Rightarrow> BytePSGlobal \<Rightarrow> BytePSGlobal" where
  "with_queue op ts s =
     s\<lparr>scheduled_queues := (scheduled_queues s)(op := \<lparr>sq = ts, finished = 0\<rparr>)\<rparr>"

text \<open>
  A root with one item on its REDUCE queue. A non-root after its CoordinateReduce stage
  has handled an item that was enqueued with the non-root queue list, and the signals
  \<open>DO_REDUCE{k}\<close>, \<open>DO_GROUP\<close> from the root (local rank 0).
\<close>

definition root_with_reduce_item :: BytePSGlobal where
  "root_with_reduce_item =
     with_queue REDUCE [example_task 0 [REDUCE, BROADCAST]] (example_global True)"

definition DO_REDUCE_then_DO_GROUP :: "int \<Rightarrow> (int \<times> BytePSCommMsg) list" where
  "DO_REDUCE_then_DO_GROUP k =
     [(0, \<lparr>src = 0, signal = DO_REDUCE, msg_key = k\<rparr>),
      (0, \<lparr>src = 0, signal = DO_GROUP, msg_key = 0\<rparr>)]"


definition non_root_after_coordinate_reduce :: BytePSGlobal where
  "non_root_after_coordinate_reduce =
     state_of (RunCoordinateLoopOnce COORDINATE_REDUCE
                 (with_queue COORDINATE_REDUCE [example_task 3 non_root_queue_list]
                    (example_global False)))"

text \<open>
  A non-root with one item at its last stage on the BROADCAST queue and the signals
  \<open>DO_BROADCAST{3}\<close>, \<open>DO_GROUP\<close>; the group entries that the non-root and the root build from
  their items; and the states after their NCCL iterations.
\<close>

definition non_root_with_broadcast_item :: BytePSGlobal where
  "non_root_with_broadcast_item =
     (with_queue BROADCAST [example_task 3 [BROADCAST]] (example_global False))
       \<lparr>recv_queue := [(0, \<lparr>src = 0, signal = DO_BROADCAST, msg_key = 3\<rparr>),
                       (0, \<lparr>src = 0, signal = DO_GROUP, msg_key = 0\<rparr>)]\<rparr>"

definition non_root_group :: NcclGroupEntry where
  "non_root_group = \<lparr>tasks = [example_task 3 [BROADCAST]], queues = [], cuda_event = 0\<rparr>"

definition root_group :: NcclGroupEntry where
  "root_group = \<lparr>tasks = [example_task 0 [REDUCE, BROADCAST]], queues = [REDUCE], cuda_event = 0\<rparr>"

definition non_root_after_nccl :: BytePSGlobal where
  "non_root_after_nccl = state_of (RunNonRootNcclLoopOnce non_root_with_broadcast_item)"

definition root_after_nccl :: BytePSGlobal where
  "root_after_nccl = state_of (RunRootNcclLoopOnce root_with_reduce_item)"


section \<open>Properties\<close>

subsection \<open>FinishOrProceed\<close>

lemma FinishOrProceed_proceed:
  "queue_list task = this_op # nxt # rest \<Longrightarrow>
   FinishOrProceed task s =
     Inr ((), GetScheduledQueue_addTask nxt (task\<lparr>queue_list := nxt # rest\<rparr>) s)"
  by (simp add: FinishOrProceed_def)

lemma FinishOrProceed_finish:
  "queue_list task = [this_op] \<Longrightarrow> counter_ptr task = Some c \<Longrightarrow> counters s c = Some v \<Longrightarrow>
   FinishOrProceed task s =
     Inr ((), if v = total_partnum task - 1
              then emit (E_callback (callback task) OK) (s\<lparr>counters := (counters s)(c \<mapsto> v + 1)\<rparr>)
              else s\<lparr>counters := (counters s)(c \<mapsto> v + 1)\<rparr>)"
  by (simp add: FinishOrProceed_def Let_def)

lemma of_nat_eq_pred_iff:
  fixes n :: "32 word"
  assumes "k < unat n"
  shows "(of_nat k = n - 1) = (Suc k = unat n)"
proof -
  have n0: "n \<noteq> 0" using assms by (auto simp: unat_eq_0)
  have kb: "k < 2 ^ 32" using assms unsigned_less [of n, where 'a = nat] by simp
  have a: "unat (of_nat k :: 32 word) = k" using kb by (simp add: unat_of_nat take_bit_nat_eq_self)
  have b: "unat (n - 1) = unat n - 1" using n0 by (simp add: unat_minus_one)
  show ?thesis
  proof
    assume "of_nat k = n - 1"
    then have "unat (of_nat k :: 32 word) = unat (n - 1)" by simp
    then show "Suc k = unat n" using a b assms by simp
  next
    assume "Suc k = unat n"
    then have "unat (of_nat k :: 32 word) = unat (n - 1)" using a b by simp
    then show "of_nat k = n - 1" by (simp only: word_unat_eq_iff)
  qed
qed

lemma set_counter_twice: "set_counter c w (set_counter c v s) = set_counter c w s"
  by (simp add: set_counter_def)

lemma counters_set_counter: "counters (set_counter c v s) c = Some v"
  by (simp add: set_counter_def)

lemma set_counter_same: "counters s c = Some v \<Longrightarrow> set_counter c v s = s"
  by (simp add: set_counter_def map_upd_triv)

lemma FinishOrProceed_last_stage:
  assumes "last_stage_of c n cb t" and "counters s c = Some (of_nat j)" and "j < unat n"
  shows "FinishOrProceed t s =
     Inr ((), if Suc j = unat n
              then emit (E_callback cb OK) (set_counter c n s)
              else set_counter c (of_nat (Suc j)) s)"
proof -
  obtain this_op where ql: "queue_list t = [this_op]"
    using assms(1) by (cases "queue_list t") (auto simp: last_stage_of_def)
  have cp: "counter_ptr t = Some c" and tp: "total_partnum t = n" and cb: "callback t = cb"
    using assms(1) by (auto simp: last_stage_of_def)
  have suc: "(of_nat j :: 32 word) + 1 = of_nat (Suc j)" by simp
  have last: "Suc j = unat n \<Longrightarrow> (of_nat (Suc j) :: 32 word) = n" by simp
  show ?thesis
    unfolding FinishOrProceed_finish [OF ql cp assms(2)] set_counter_def suc
    using of_nat_eq_pred_iff [OF assms(3)] last by (simp only: tp cb split: if_splits) simp
qed

lemma FinishOrProceed_each_before_last:
  "\<forall>t\<in>set ts. last_stage_of c n cb t \<Longrightarrow> counters s c = Some (of_nat j) \<Longrightarrow>
   j + length ts < unat n \<Longrightarrow>
   FinishOrProceed_each ts s = Inr ((), set_counter c (of_nat (j + length ts)) s)"
proof (induction ts arbitrary: s j)
  case Nil
  then show ?case by (simp add: set_counter_same)
next
  case (Cons t ts)
  let ?s1 = "set_counter c (of_nat (Suc j)) s"
  have step: "FinishOrProceed t s = Inr ((), ?s1)"
    using FinishOrProceed_last_stage [of c n cb t s j] Cons.prems by simp
  have "FinishOrProceed_each ts ?s1 = Inr ((), set_counter c (of_nat (Suc j + length ts)) ?s1)"
    using Cons.prems by (intro Cons.IH) (auto simp: counters_set_counter)
  then show ?case using step by (simp add: set_counter_twice)
qed

lemma FinishOrProceed_each_snoc:
  "FinishOrProceed_each (ts @ [t]) s =
     (case FinishOrProceed_each ts s of Inl e \<Rightarrow> Inl e | Inr (_, s1) \<Rightarrow> FinishOrProceed t s1)"
  by (induction ts arbitrary: s) (auto split: sum.splits)

lemma FinishOrProceed_each_all:
  assumes "\<forall>t\<in>set ts. last_stage_of c n cb t" and "counters s c = Some 0"
    and "length ts = unat n" and "ts \<noteq> []"
  shows "FinishOrProceed_each ts s = Inr ((), emit (E_callback cb OK) (set_counter c n s))"
proof -
  obtain us u where ts: "ts = us @ [u]" using assms(4) by (metis rev_exhaust)
  have len: "Suc (length us) = unat n" using assms(3) ts by simp
  let ?s1 = "set_counter c (of_nat (length us)) s"
  have "FinishOrProceed_each us s = Inr ((), ?s1)"
    using FinishOrProceed_each_before_last [of us c n cb s 0] assms(1,2) len ts by simp
  moreover have "FinishOrProceed u ?s1 = Inr ((), emit (E_callback cb OK) (set_counter c n ?s1))"
    using FinishOrProceed_last_stage [of c n cb u ?s1 "length us"] assms(1) len ts
    by (simp add: counters_set_counter)
  ultimately show ?thesis by (simp add: FinishOrProceed_each_snoc ts set_counter_twice)
qed

text \<open>
  Claim C1. For a work item with a non-empty \<open>queue_list\<close>, \<open>FinishOrProceed\<close> removes the
  head stage. If stages remain, the call returns and its only effect is that the item,
  with the shortened list, is the new last element of the queue of the new head stage
  (recorded as one \<open>addTask\<close> on that queue). Otherwise the call returns and its only
  effect is that the shared counter is incremented and that the callback is invoked
  with success, once, exactly when the value before the increment is
  \<open>total_partnum - 1\<close>. For the \<open>n\<close> partitions of one tensor, whose counter starts at 0, no
  callback has run after any \<open>k < n\<close> of the final calls, and after all \<open>n\<close> calls the
  callback has run exactly once, in the last call.
\<close>

theorem FinishOrProceed_contract:
  "(queue_list task = this_op # nxt # rest \<longrightarrow>
      FinishOrProceed task s =
        Inr ((), s\<lparr>scheduled_queues :=
                     (scheduled_queues s)
                       (nxt := (scheduled_queues s nxt)
                          \<lparr>sq := sq (scheduled_queues s nxt) @ [task\<lparr>queue_list := nxt # rest\<rparr>]\<rparr>),
                   trace := trace s @ [E_addTask nxt (key task)]\<rparr>) \<and>
      sq (scheduled_queues (state_of (FinishOrProceed task s)) nxt) =
        sq (scheduled_queues s nxt) @ [task\<lparr>queue_list := nxt # rest\<rparr>] \<and>
      trace (state_of (FinishOrProceed task s)) = trace s @ [E_addTask nxt (key task)] \<and>
      counters (state_of (FinishOrProceed task s)) = counters s) \<and>
   (queue_list task = [this_op] \<and> counter_ptr task = Some c \<and> counters s c = Some v \<longrightarrow>
      FinishOrProceed task s =
        Inr ((), s\<lparr>counters := (counters s)(c \<mapsto> v + 1),
                   trace := trace s @ (if v = total_partnum task - 1
                                       then [E_callback (callback task) OK] else [])\<rparr>) \<and>
      counters (state_of (FinishOrProceed task s)) c = Some (v + 1) \<and>
      trace (state_of (FinishOrProceed task s)) =
        trace s @ (if v = total_partnum task - 1 then [E_callback (callback task) OK] else []) \<and>
      scheduled_queues (state_of (FinishOrProceed task s)) = scheduled_queues s) \<and>
   ((\<forall>t\<in>set ts. last_stage_of c n cb t) \<and> counters s c = Some 0 \<and> length ts = unat n \<and>
    k < length ts \<longrightarrow>
      FinishOrProceed_each (take k ts) s =
        Inr ((), s\<lparr>counters := (counters s)(c \<mapsto> of_nat k)\<rparr>) \<and>
      FinishOrProceed_each ts s =
        Inr ((), s\<lparr>counters := (counters s)(c \<mapsto> n), trace := trace s @ [E_callback cb OK]\<rparr>))"
proof (intro conjI impI)
  assume q: "queue_list task = this_op # nxt # rest"
  show r: "FinishOrProceed task s =
        Inr ((), s\<lparr>scheduled_queues :=
                     (scheduled_queues s)
                       (nxt := (scheduled_queues s nxt)
                          \<lparr>sq := sq (scheduled_queues s nxt) @ [task\<lparr>queue_list := nxt # rest\<rparr>]\<rparr>),
                   trace := trace s @ [E_addTask nxt (key task)]\<rparr>)"
    unfolding FinishOrProceed_proceed [OF q]
    by (simp add: GetScheduledQueue_addTask_def emit_def addTask_def)
  show "sq (scheduled_queues (state_of (FinishOrProceed task s)) nxt) =
        sq (scheduled_queues s nxt) @ [task\<lparr>queue_list := nxt # rest\<rparr>]"
    and "trace (state_of (FinishOrProceed task s)) = trace s @ [E_addTask nxt (key task)]"
    and "counters (state_of (FinishOrProceed task s)) = counters s"
    unfolding r by (simp_all add: state_of_def)
next
  assume h: "queue_list task = [this_op] \<and> counter_ptr task = Some c \<and> counters s c = Some v"
  then have q: "queue_list task = [this_op]" and cp: "counter_ptr task = Some c"
    and cv: "counters s c = Some v" by simp_all
  show r: "FinishOrProceed task s =
        Inr ((), s\<lparr>counters := (counters s)(c \<mapsto> v + 1),
                   trace := trace s @ (if v = total_partnum task - 1
                                       then [E_callback (callback task) OK] else [])\<rparr>)"
    unfolding FinishOrProceed_finish [OF q cp cv] by (simp add: emit_def)
  show "counters (state_of (FinishOrProceed task s)) c = Some (v + 1)"
    and "trace (state_of (FinishOrProceed task s)) =
        trace s @ (if v = total_partnum task - 1 then [E_callback (callback task) OK] else [])"
    and "scheduled_queues (state_of (FinishOrProceed task s)) = scheduled_queues s"
    unfolding r by (simp_all add: state_of_def)
next
  assume a: "(\<forall>t\<in>set ts. last_stage_of c n cb t) \<and> counters s c = Some 0 \<and>
    length ts = unat n \<and> k < length ts"
  have "\<forall>t\<in>set (take k ts). last_stage_of c n cb t"
    using a by (meson in_set_takeD)
  then show "FinishOrProceed_each (take k ts) s =
      Inr ((), s\<lparr>counters := (counters s)(c \<mapsto> of_nat k)\<rparr>)"
    using FinishOrProceed_each_before_last [of "take k ts" c n cb s 0] a
    by (simp add: set_counter_def)
next
  assume a: "(\<forall>t\<in>set ts. last_stage_of c n cb t) \<and> counters s c = Some 0 \<and>
    length ts = unat n \<and> k < length ts"
  then have "ts \<noteq> []" by auto
  then show "FinishOrProceed_each ts s =
      Inr ((), s\<lparr>counters := (counters s)(c \<mapsto> n), trace := trace s @ [E_callback cb OK]\<rparr>)"
    using FinishOrProceed_each_all [of ts c n cb s] a by (simp add: set_counter_def emit_def)
qed

theorem FinishOrProceed_contract_witness:
  "FinishOrProceed (example_task 0 [COORDINATE_REDUCE, REDUCE]) (example_global False) =
     Inr ((), (example_global False)
                \<lparr>scheduled_queues :=
                   (\<lambda>_. empty_queue)(REDUCE := \<lparr>sq = [example_task 0 [REDUCE]], finished = 0\<rparr>),
                 trace := [E_addTask REDUCE 0]\<rparr>) \<and>
   FinishOrProceed (example_task 0 [BROADCAST]) (example_global False) =
     Inr ((), (example_global False)\<lparr>counters := [0 \<mapsto> 1]\<rparr>) \<and>
   FinishOrProceed (example_task 1 [BROADCAST]) ((example_global False)\<lparr>counters := [0 \<mapsto> 1]\<rparr>) =
     Inr ((), (example_global False)\<lparr>counters := [0 \<mapsto> 2], trace := [E_callback 7 OK]\<rparr>) \<and>
   FinishOrProceed_each [example_task 0 [BROADCAST]] (example_global False) =
     Inr ((), (example_global False)\<lparr>counters := [0 \<mapsto> 1]\<rparr>) \<and>
   FinishOrProceed_each [example_task 0 [BROADCAST], example_task 1 [BROADCAST]]
       (example_global False) =
     Inr ((), (example_global False)\<lparr>counters := [0 \<mapsto> 2], trace := [E_callback 7 OK]\<rparr>)"
  using FinishOrProceed_contract [where task = "example_task 0 [COORDINATE_REDUCE, REDUCE]"
      and this_op = COORDINATE_REDUCE and nxt = REDUCE and rest = "[]"
      and s = "example_global False" and c = 0 and v = 0 and n = 2 and cb = 7 and k = 1
      and ts = "[example_task 0 [BROADCAST], example_task 1 [BROADCAST]]"]
    FinishOrProceed_contract [where task = "example_task 0 [BROADCAST]"
      and this_op = BROADCAST and s = "example_global False" and c = 0 and v = 0
      and ts = "[]" and k = 0 and n = 0]
    FinishOrProceed_contract [where task = "example_task 1 [BROADCAST]"
      and this_op = BROADCAST and s = "(example_global False)\<lparr>counters := [0 \<mapsto> 1]\<rparr>"
      and c = 0 and v = 1 and ts = "[]" and k = 0 and n = 0]
  by (simp add: example_task_def example_global_def last_stage_of_def empty_queue_def)

subsection \<open>PartitionTensor and EnqueueTensor\<close>

lemma int32_id: "- (2 ^ 31) \<le> x \<Longrightarrow> x < 2 ^ 31 \<Longrightarrow> int32 x = x"
  unfolding int32_def by (simp add: sint_sbintrunc' signed_take_bit_int_eq_self)

lemma le_div_iff_int:
  assumes "0 < (B::int)" shows "(a \<le> x div B) = (a * B \<le> x)"
proof
  assume "a \<le> x div B"
  then have "a * B \<le> (x div B) * B" using assms by (simp add: mult_right_mono)
  also have "\<dots> \<le> x" using assms by (metis mult.commute pos_mod_sign add_le_cancel_left div_mult_mod_eq mult.commute add.right_neutral) 
  finally show "a * B \<le> x" .
next
  assume h: "a * B \<le> x"
  have "x < (x div B + 1) * B" using assms
    by (metis add.commute distrib_left mult.commute mult.right_neutral pos_mod_bound add_less_cancel_left div_mult_mod_eq)
  then have "a * B < (x div B + 1) * B" using h by simp
  then have "a < x div B + 1" using assms by (simp add: mult_less_cancel_right)
  then show "a \<le> x div B" by simp
qed

lemma below_count_iff:
  assumes "0 < B"
  shows "(k < partition_count S B) = (int k * B < S)"
proof -
  have "(int k + 1 \<le> (S + B - 1) div B) = ((int k + 1) * B \<le> S + B - 1)"
    using assms by (rule le_div_iff_int)
  also have "\<dots> = (int k * B < S)" by (auto simp: algebra_simps)
  finally have "(int k + 1 \<le> (S + B - 1) div B) = (int k * B < S)" .
  moreover have "(int k < (S + B - 1) div B) = (int k + 1 \<le> (S + B - 1) div B)" by linarith
  ultimately have "(int k < (S + B - 1) div B) = (int k * B < S)" by blast
  then show ?thesis unfolding partition_count_def by (simp add: zless_nat_eq_int_zless)
qed

lemma PartitionTensor_loop_from:
  assumes "0 < B" and "0 \<le> S" and "S < 2 ^ 31"
  shows "k \<le> partition_count S B \<Longrightarrow>
    PartitionTensor_loop entry S B (min (int k * B) S) k ps =
      Some (ps @ map (\<lambda>i. new_partition entry i (int i * B) (min B (S - int i * B)))
                   [k..<partition_count S B])"
proof (induction "partition_count S B - k" arbitrary: k ps)
  case 0
  then have k: "k = partition_count S B" by simp
  then have "\<not> int k * B < S" using below_count_iff [OF assms(1), of k S] by simp
  then have "\<not> min (int k * B) S < S" by simp
  then show ?case
    by (subst PartitionTensor_loop.simps) (simp add: k)
next
  case (Suc d)
  then have lt: "k < partition_count S B" by simp
  then have kB: "int k * B < S" using below_count_iff [OF assms(1), of k S] by simp
  have acc: "min (int k * B) S = int k * B" using kB by simp
  let ?len = "if S - int k * B > B then B else S - int k * B"
  have len: "?len = min B (S - int k * B)" by simp
  have nxt: "int k * B + ?len = min (int (Suc k) * B) S"
    by (simp add: algebra_simps min_def)
  have "0 \<le> int (Suc k) * B" using assms(1) by (intro mult_nonneg_nonneg) auto
  then have "0 \<le> min (int (Suc k) * B) S" using assms(2) by (rule min.boundedI)
  moreover have "min (int (Suc k) * B) S \<le> S" by (rule min.cobounded2)
  ultimately have rng: "- (2 ^ 31) \<le> min (int (Suc k) * B) S" "min (int (Suc k) * B) S < 2 ^ 31"
    using assms(3) by linarith+
  have wrap: "int32 (int k * B + ?len) = min (int (Suc k) * B) S"
    unfolding nxt using rng by (rule int32_id)
  have IH: "PartitionTensor_loop entry S B (min (int (Suc k) * B) S) (Suc k)
               (ps @ [new_partition entry k (int k * B) ?len]) =
      Some ((ps @ [new_partition entry k (int k * B) ?len])
            @ map (\<lambda>i. new_partition entry i (int i * B) (min B (S - int i * B)))
                [Suc k..<partition_count S B])"
    using Suc.hyps(2) lt by (intro Suc.hyps(1)) auto
  have "PartitionTensor_loop entry S B (int k * B) k ps =
        PartitionTensor_loop entry S B (int32 (int k * B + ?len)) (Suc k)
               (ps @ [new_partition entry k (int k * B) ?len])"
    using kB by (subst PartitionTensor_loop.simps) simp
  then show ?case
    unfolding acc wrap IH using lt by (simp add: upt_conv_Cons len)
qed

lemma PartitionTensor_loop_spec_partitions:
  assumes "0 < B" and "0 \<le> S" and "S < 2 ^ 31"
  shows "PartitionTensor_loop entry S B 0 0 [] = Some (spec_partitions entry S B)"
  using PartitionTensor_loop_from [OF assms, of 0 entry "[]"] assms
  by (simp add: spec_partitions_def)

lemma sum_len_from:
  assumes "0 < B" and "0 \<le> S"
  shows "k \<le> partition_count S B \<Longrightarrow>
    (\<Sum>i\<leftarrow>[k..<partition_count S B]. min B (S - int i * B)) = S - min (int k * B) S"
proof (induction "partition_count S B - k" arbitrary: k)
  case 0
  then have k: "k = partition_count S B" by simp
  then have "\<not> int k * B < S" using below_count_iff [OF assms(1), of k S] by simp
  then show ?case using k by simp
next
  case (Suc d)
  then have lt: "k < partition_count S B" by simp
  then have kB: "int k * B < S" using below_count_iff [OF assms(1), of k S] by simp
  have "(\<Sum>i\<leftarrow>[Suc k..<partition_count S B]. min B (S - int i * B)) = S - min (int (Suc k) * B) S"
    using Suc.hyps(2) lt by (intro Suc.hyps(1)) auto
  moreover have "min B (S - int k * B) + (S - min (int (Suc k) * B) S) = S - int k * B"
    by (simp add: algebra_simps min_def)
  moreover have "min (int k * B) S = int k * B" using kB by simp
  ultimately show ?case using lt by (simp add: upt_conv_Cons)
qed

lemma sum_len_spec_partitions:
  assumes "0 < B" and "0 \<le> S"
  shows "sum_list (map len (spec_partitions entry S B)) = S"
proof -
  have "map len (spec_partitions entry S B) =
      map (\<lambda>i. min B (S - int i * B)) [0..<partition_count S B]"
    by (simp add: spec_partitions_def new_partition_def comp_def)
  then show ?thesis using sum_len_from [OF assms, of 0] assms by simp
qed


lemma enqueue_all_Nil: "enqueue_all op [] s = s"
  by (simp add: enqueue_all_def)

lemma addTask_enqueue_all:
  "GetScheduledQueue_addTask op t (enqueue_all op ts s) = enqueue_all op (ts @ [t]) s"
  by (simp add: GetScheduledQueue_addTask_def enqueue_all_def emit_def addTask_def)

lemma uint32_add_left: "uint32 (uint32 a + b) = uint32 (a + b)"
  by (simp add: uint32_def mod_add_left_eq)

lemma EnqueueTensor_loop_upto:
  "m \<le> length ps \<Longrightarrow>
   fold (\<lambda>i (accumulated, s').
           let task = (ps ! i)\<lparr>key := keys ! i\<rparr>
           in (uint32 (accumulated + len task), GetScheduledQueue_addTask op task s'))
        [0..<m] (0, s) =
     (uint32 (\<Sum>i\<leftarrow>[0..<m]. len (ps ! i)),
      enqueue_all op (map (\<lambda>i. (ps ! i)\<lparr>key := keys ! i\<rparr>) [0..<m]) s)"
proof (induction m)
  case 0
  then show ?case by (simp add: enqueue_all_Nil uint32_def)
next
  case (Suc m)
  let ?f = "\<lambda>i (accumulated, s').
           let task = (ps ! i)\<lparr>key := keys ! i\<rparr>
           in (uint32 (accumulated + len task), GetScheduledQueue_addTask op task s')"
  have IH: "fold ?f [0..<m] (0, s) =
     (uint32 (\<Sum>i\<leftarrow>[0..<m]. len (ps ! i)),
      enqueue_all op (map (\<lambda>i. (ps ! i)\<lparr>key := keys ! i\<rparr>) [0..<m]) s)"
    using Suc by simp
  have "fold ?f [0..<Suc m] (0, s) = ?f m (fold ?f [0..<m] (0, s))"
    by (simp only: upt_Suc_append [OF le0] fold_append fold_simps comp_apply)
  also have "\<dots> = (uint32 ((\<Sum>i\<leftarrow>[0..<m]. len (ps ! i)) + len (ps ! m)),
      enqueue_all op (map (\<lambda>i. (ps ! i)\<lparr>key := keys ! i\<rparr>) [0..<m] @ [(ps ! m)\<lparr>key := keys ! m\<rparr>]) s)"
    unfolding IH by (simp only: Let_def prod.case addTask_enqueue_all uint32_add_left) simp
  finally show ?case by simp
qed

lemma EnqueueTensor_loop_eq:
  "EnqueueTensor_loop keys op ps s =
     (uint32 (sum_list (map len ps)), enqueue_all op (assign_keys keys ps) s)"
proof -
  have "map (\<lambda>i. len (ps ! i)) [0..<length ps] = map len (map ((!) ps) [0..<length ps])"
    by simp
  then have "map (\<lambda>i. len (ps ! i)) [0..<length ps] = map len ps"
    by (simp only: map_nth)
  then show ?thesis
    unfolding EnqueueTensor_loop_def assign_keys_def
    by (simp only: EnqueueTensor_loop_upto [OF order_refl])
qed

lemma uint32_id: "0 \<le> x \<Longrightarrow> x < 2 ^ 32 \<Longrightarrow> uint32 x = x"
  by (simp add: uint32_def)

lemma PartitionTensor_eq:
  assumes "counter_ptr entry = Some c" and "entry_size entry = Some S"
    and "0 < partition_bound s" and "0 \<le> S" and "S < 2 ^ 31"
  shows "PartitionTensor entry [] s = Some (Inr (spec_partitions entry S (partition_bound s), s))"
  using assms PartitionTensor_loop_spec_partitions [of "partition_bound s" S entry]
  by (simp add: PartitionTensor_def)

lemma PartitionTensor_state:
  "PartitionTensor entry ps0 s = Some (Inr (ps, s1)) \<Longrightarrow> s1 = s"
  by (auto simp: PartitionTensor_def split: option.splits)

lemma EnqueueTensor_mismatch:
  "size_mismatch input output \<Longrightarrow>
   EnqueueTensor context input output ready name dev prio ver cb ql s =
     Some (Inl (Fatal OutputSizeMismatch, s))"
  by (simp add: EnqueueTensor_def)

lemma EnqueueTensor_empty_queue_list:
  assumes "\<not> size_mismatch input output"
    and "PartitionTensor (EnqueueTensor_entry context input output ready name dev prio ver cb []
            (heap_next s)) [] (make_shared_counter s) = Some (Inr (ps, s1))"
    and "length (key_list context) = length ps"
  shows "EnqueueTensor context input output ready name dev prio ver cb [] s =
     Some (Inr (OK, emit (E_callback cb OK) (make_shared_counter s)))"
proof -
  have "s1 = make_shared_counter s" using assms(2) by (rule PartitionTensor_state)
  then show ?thesis using assms
    by (simp add: EnqueueTensor_def Let_def EnqueueTensor_entry_def)
qed

lemma EnqueueTensor_enqueues:
  assumes "\<not> size_mismatch input output"
    and "entry_size (EnqueueTensor_entry context input output ready name dev prio ver cb ql
            (heap_next s)) = Some S"
    and "0 < partition_bound s" and "0 \<le> S" and "S < 2 ^ 31" and "ql \<noteq> []"
  shows "EnqueueTensor context input output ready name dev prio ver cb ql s =
     Some (if length (key_list context) \<noteq> partition_count S (partition_bound s)
           then Inl (Fatal KeyListSizeMismatch, make_shared_counter s)
           else Inr (OK, enqueue_all (hd ql)
                      (assign_keys (key_list context)
                         (spec_partitions
                            (EnqueueTensor_entry context input output ready name dev prio ver cb ql
                               (heap_next s)) S (partition_bound s)))
                      (make_shared_counter s)))"
proof -
  let ?e = "EnqueueTensor_entry context input output ready name dev prio ver cb ql (heap_next s)"
  let ?s0 = "make_shared_counter s"
  have cp: "counter_ptr ?e = Some (heap_next s)" by (simp add: EnqueueTensor_entry_def)
  have B: "partition_bound ?s0 = partition_bound s" by (simp add: make_shared_counter_def)
  have pt: "PartitionTensor ?e [] ?s0 = Some (Inr (spec_partitions ?e S (partition_bound s), ?s0))"
    using PartitionTensor_eq [OF cp assms(2), of ?s0] assms(3,4,5) B by simp
  have n: "length (spec_partitions ?e S (partition_bound s)) = partition_count S (partition_bound s)"
    by (simp add: spec_partitions_def)
  have ql: "queue_list ?e = ql" by (simp add: EnqueueTensor_entry_def)
  have acc: "uint32 (sum_list (map len (spec_partitions ?e S (partition_bound s)))) = S"
    using sum_len_spec_partitions [OF assms(3,4)] assms(4,5) by (simp add: uint32_id)
  show ?thesis
    using assms(1,6) unfolding EnqueueTensor_def Let_def pt
    by (simp add: n ql EnqueueTensor_loop_eq acc assms(2))
qed


lemma PartitionTensor_loop_zero_bound:
  assumes "0 < S"
  shows "PartitionTensor_loop entry S 0 0 i ps = None"
proof (cases "PartitionTensor_loop entry S 0 0 i ps")
  case None
  then show ?thesis .
next
  case (Some y)
  have "\<not> (0 < S \<and> (0::int) = 0 \<and> (0::int) = 0)"
  proof (rule PartitionTensor_loop.raw_induct
      [where P = "\<lambda>e sz b a j qs y. \<not> (0 < sz \<and> b = 0 \<and> a = 0)", OF _ Some])
    fix f e sz b a j qs y
    assume IH: "\<And>e sz b a j qs y. f e sz b a j qs = Some y \<Longrightarrow> \<not> (0 < sz \<and> b = 0 \<and> a = 0)"
      and step: "(if a < sz
          then f e sz b (int32 (a + (if b < sz - a then b else sz - a))) (Suc j)
                 (qs @ [new_partition e j a (if b < sz - a then b else sz - a)])
          else Some qs) = Some y"
    show "\<not> (0 < sz \<and> b = 0 \<and> a = 0)"
    proof
      assume h: "0 < sz \<and> b = 0 \<and> a = 0"
      then have "f e sz 0 (int32 0) (Suc j) (qs @ [new_partition e j 0 0]) = Some y"
        using step by simp
      then have "f e sz 0 0 (Suc j) (qs @ [new_partition e j 0 0]) = Some y"
        by (simp add: int32_def)
      from IH [OF this] h show False by simp
    qed
  qed
  then show ?thesis using assms by simp
qed

lemma int32_less: "int32 x < 2 ^ 31"
  unfolding int32_def using sint_lt [of "word_of_int x :: 32 word"] by simp

lemma PartitionTensor_loop_never_returns:
  assumes "(2::int) ^ 31 \<le> S" and "a < 2 ^ 31"
  shows "PartitionTensor_loop entry S B a i ps = None"
proof (cases "PartitionTensor_loop entry S B a i ps")
  case None
  then show ?thesis .
next
  case (Some y)
  have "\<not> ((2::int) ^ 31 \<le> S \<and> a < 2 ^ 31)"
  proof (rule PartitionTensor_loop.raw_induct
      [where P = "\<lambda>e sz b a j qs y. \<not> ((2::int) ^ 31 \<le> sz \<and> a < 2 ^ 31)", OF _ Some])
    fix f e sz b a j qs y
    assume IH: "\<And>e sz b a j qs y. f e sz b a j qs = Some y \<Longrightarrow>
        \<not> ((2::int) ^ 31 \<le> sz \<and> a < 2 ^ 31)"
      and step: "(if a < sz
          then f e sz b (int32 (a + (if b < sz - a then b else sz - a))) (Suc j)
                 (qs @ [new_partition e j a (if b < sz - a then b else sz - a)])
          else Some qs) = Some y"
    show "\<not> ((2::int) ^ 31 \<le> sz \<and> a < 2 ^ 31)"
    proof
      assume h: "(2::int) ^ 31 \<le> sz \<and> a < 2 ^ 31"
      then have "a < sz" by simp
      then have "f e sz b (int32 (a + (if b < sz - a then b else sz - a))) (Suc j)
                 (qs @ [new_partition e j a (if b < sz - a then b else sz - a)]) = Some y"
        using step by simp
      from IH [OF this] h int32_less show False by blast
    qed
  qed
  then show ?thesis using assms by simp
qed

lemma PartitionTensor_never_returns:
  assumes "counter_ptr entry = Some c" and "entry_size entry = Some S"
    and "PartitionTensor_loop entry S (partition_bound s) 0 0 ps = None"
  shows "PartitionTensor entry ps s = None"
  using assms by (simp add: PartitionTensor_def)

lemma EnqueueTensor_never_returns:
  assumes "\<not> size_mismatch input output"
    and "entry_size (EnqueueTensor_entry context input output ready name dev prio ver cb ql
            (heap_next s)) = Some S"
    and "PartitionTensor_loop
           (EnqueueTensor_entry context input output ready name dev prio ver cb ql (heap_next s))
           S (partition_bound s) 0 0 [] = None"
  shows "EnqueueTensor context input output ready name dev prio ver cb ql s = None"
proof -
  let ?e = "EnqueueTensor_entry context input output ready name dev prio ver cb ql (heap_next s)"
  have cp: "counter_ptr ?e = Some (heap_next s)" by (simp add: EnqueueTensor_entry_def)
  have B: "partition_bound (make_shared_counter s) = partition_bound s"
    by (simp add: make_shared_counter_def)
  have "PartitionTensor ?e [] (make_shared_counter s) = None"
    using PartitionTensor_never_returns [OF cp assms(2), of "make_shared_counter s" "[]"]
      assms(3) B by simp
  then show ?thesis using assms(1) by (simp add: EnqueueTensor_def Let_def)
qed

lemma lens_example:
  assumes "17 \<le> B" 
  shows "map len (spec_partitions entry (3 * B + 17) B) = [B, B, B, 17]"
proof -
  have "(3 * B + 17 + B - 1) div B = 4 + 16 div B" using assms
    by (simp add: algebra_simps)
  moreover have "16 div B = 0" using assms by (simp add: div_pos_pos_trivial)
  ultimately have n: "partition_count (3 * B + 17) B = 4" by (simp add: partition_count_def)
  have "[0..<4] = [0, 1, 2, 3]" by (simp add: upt_rec)
  then show ?thesis using assms
    by (simp add: spec_partitions_def n new_partition_def min_def)
qed

text \<open>
  Claim C2 says that a call with two tensors of different byte sizes invokes the callback
  with a failure status, enqueues nothing and leaves the engine unchanged. On the
  16-byte input and an 8-byte output the call stops in the fatal check of its first
  statement; the state in which it stops is the initial one, in which no callback has
  been invoked, with a failure status or any other.
\<close>

theorem EnqueueTensor_size_mismatch_counterexample:
  "EnqueueTensor (example_context [5]) (Some example_tensor) (Some (example_tensor\<lparr>size := 8\<rparr>))
       None ''grad'' 0 0 0 7 [REDUCE, BROADCAST] (example_global True) =
     Some (Inl (Fatal OutputSizeMismatch, example_global True)) \<and>
   E_callback 7 Failure \<notin> set (trace (example_global True))"
  by (simp add: EnqueueTensor_def size_mismatch_def example_tensor_def example_global_def)

text \<open>
  Claim C2, amended. For every call to \<open>EnqueueTensor\<close> in which both tensors are supplied
  and their byte sizes differ, the check \<open>BPS_CHECK_EQ\<close> on the sizes fails and stops the
  process in the state in which the call was made: no callback is invoked, no partition
  is enqueued, and the state is unchanged.
\<close>

theorem EnqueueTensor_size_mismatch_stops:
  "input = Some a \<Longrightarrow> output = Some b \<Longrightarrow> size a \<noteq> size b \<Longrightarrow>
   EnqueueTensor context input output ready name dev prio ver cb ql s =
     Some (Inl (Fatal OutputSizeMismatch, s))"
  by (simp add: EnqueueTensor_mismatch size_mismatch_def)

theorem EnqueueTensor_size_mismatch_stops_witness:
  "size example_tensor \<noteq> size (example_tensor\<lparr>size := 8\<rparr>) \<and>
   EnqueueTensor (example_context [5]) (Some example_tensor) (Some (example_tensor\<lparr>size := 8\<rparr>))
       None ''grad'' 0 0 0 7 [REDUCE, BROADCAST] (example_global True) =
     Some (Inl (Fatal OutputSizeMismatch, example_global True))"
  using EnqueueTensor_size_mismatch_stops [of "Some example_tensor" example_tensor
      "Some (example_tensor\<lparr>size := 8\<rparr>)" "example_tensor\<lparr>size := 8\<rparr>"
      "example_context [5]" None "''grad''" 0 0 0 7 "[REDUCE, BROADCAST]" "example_global True"]
  by (simp add: example_tensor_def)

text \<open>
  Claim C8 says that every call with an empty \<open>queue_list\<close> and as many keys as partitions
  invokes the callback with success and returns success. With an output of 8 bytes for
  an input of 16 bytes the one partition matches the one key and the queue list is
  empty, but the call stops in the size check and no callback is invoked. With a
  partition bound of 0 the partition loop never advances, and with a tensor of \<open>2^31\<close>
  bytes (two partitions for the bound \<open>2^30\<close>, and two keys) its 32-bit \<open>accumulated\<close> never
  reaches the size: in both the call never returns. With neither tensor supplied the
  call dereferences the null output.
\<close>

theorem EnqueueTensor_empty_queue_list_counterexample:
  "map_option length
     (PartitionTensor_loop
        (EnqueueTensor_entry (example_context [5]) (Some example_tensor)
           (Some (example_tensor\<lparr>size := 8\<rparr>)) None ''grad'' 0 0 0 7 []
           (heap_next (example_global True)))
        16 (partition_bound (example_global True)) 0 0 []) =
     Some (length (key_list (example_context [5]))) \<and>
   EnqueueTensor (example_context [5]) (Some example_tensor) (Some (example_tensor\<lparr>size := 8\<rparr>))
       None ''grad'' 0 0 0 7 [] (example_global True) =
     Some (Inl (Fatal OutputSizeMismatch, example_global True)) \<and>
   E_callback 7 OK \<notin> set (trace (example_global True)) \<and>
   EnqueueTensor (example_context [5]) (Some example_tensor) (Some example_tensor)
       None ''grad'' 0 0 0 7 [] ((example_global True)\<lparr>partition_bound := 0\<rparr>) = None \<and>
   partition_count 2147483648 1073741824 = length (key_list (example_context [10, 11])) \<and>
   EnqueueTensor (example_context [10, 11]) (Some (example_tensor\<lparr>size := 2147483648\<rparr>))
       (Some (example_tensor\<lparr>size := 2147483648\<rparr>))
       None ''grad'' 0 0 0 7 [] ((example_global True)\<lparr>partition_bound := 1073741824\<rparr>) = None \<and>
   EnqueueTensor (example_context []) None None None ''grad'' 0 0 0 7 [] (example_global True) =
     Some (Inl (Fatal NullDereference, make_shared_counter (example_global True)))"
proof -
  have n: "EnqueueTensor (example_context []) None None None ''grad'' 0 0 0 7 []
       (example_global True) =
     Some (Inl (Fatal NullDereference, make_shared_counter (example_global True)))"
    by (simp add: EnqueueTensor_def size_mismatch_def PartitionTensor_def entry_size_def
        EnqueueTensor_entry_def)
  have a: "map_option length
     (PartitionTensor_loop
        (EnqueueTensor_entry (example_context [5]) (Some example_tensor)
           (Some (example_tensor\<lparr>size := 8\<rparr>)) None ''grad'' 0 0 0 7 []
           (heap_next (example_global True)))
        16 (partition_bound (example_global True)) 0 0 []) =
     Some (length (key_list (example_context [5]))) \<and>
   EnqueueTensor (example_context [5]) (Some example_tensor) (Some (example_tensor\<lparr>size := 8\<rparr>))
       None ''grad'' 0 0 0 7 [] (example_global True) =
     Some (Inl (Fatal OutputSizeMismatch, example_global True)) \<and>
   E_callback 7 OK \<notin> set (trace (example_global True))"
    by (simp add: EnqueueTensor_def size_mismatch_def example_tensor_def example_global_def
      example_context_def PartitionTensor_loop_spec_partitions spec_partitions_def
      partition_count_def)
  have m: "\<not> size_mismatch (Some example_tensor) (Some example_tensor)"
    "\<not> size_mismatch (Some (example_tensor\<lparr>size := 2147483648\<rparr>))
         (Some (example_tensor\<lparr>size := 2147483648\<rparr>))"
    by (simp_all add: size_mismatch_def)
  have b: "EnqueueTensor (example_context [5]) (Some example_tensor) (Some example_tensor)
       None ''grad'' 0 0 0 7 [] ((example_global True)\<lparr>partition_bound := 0\<rparr>) = None"
    by (rule EnqueueTensor_never_returns [OF m(1), where S = 16])
      (simp_all add: entry_size_def EnqueueTensor_entry_def example_tensor_def
        PartitionTensor_loop_zero_bound)
  have c: "EnqueueTensor (example_context [10, 11]) (Some (example_tensor\<lparr>size := 2147483648\<rparr>))
       (Some (example_tensor\<lparr>size := 2147483648\<rparr>))
       None ''grad'' 0 0 0 7 [] ((example_global True)\<lparr>partition_bound := 1073741824\<rparr>) = None"
    by (rule EnqueueTensor_never_returns [OF m(2), where S = 2147483648])
      (simp_all add: entry_size_def EnqueueTensor_entry_def example_tensor_def
        PartitionTensor_loop_never_returns)
  have d: "partition_count 2147483648 1073741824 = length (key_list (example_context [10, 11]))"
    by (simp add: partition_count_def example_context_def)
  show ?thesis using a b c d n by (intro conjI) simp_all
qed

text \<open>
  Claim C8, amended. For every call to \<open>EnqueueTensor\<close> with an empty \<open>queue_list\<close>, with
  an input or an output, whose sizes agree when both are supplied, on a tensor of
  fewer than \<open>2^31\<close> bytes and with a positive partition bound, and with a context whose
  \<open>key_list\<close> has as many keys as there are partitions, \<open>PartitionTensor\<close> returns these
  partitions, the call returns success, the callback has been invoked with success
  during the call, once, and no item has been added to any queue: the only other
  effect is the allocation of the counter.
\<close>

theorem EnqueueTensor_empty_queue_list_callback:
  assumes "\<not> size_mismatch input output"
    and "entry_size (EnqueueTensor_entry context input output ready name dev prio ver cb []
            (heap_next s)) = Some S"
    and "0 < partition_bound s" and "0 \<le> S" and "S < 2 ^ 31"
    and "length (key_list context) = partition_count S (partition_bound s)"
  shows "(\<exists>ps. PartitionTensor
                 (EnqueueTensor_entry context input output ready name dev prio ver cb []
                    (heap_next s)) [] (make_shared_counter s) =
                 Some (Inr (ps, make_shared_counter s)) \<and>
               length ps = length (key_list context)) \<and>
         EnqueueTensor context input output ready name dev prio ver cb [] s =
           Some (Inr (OK, s\<lparr>counters := (counters s)(heap_next s \<mapsto> 0),
                            heap_next := Suc (heap_next s),
                            trace := trace s @ [E_callback cb OK]\<rparr>))"
proof -
  let ?e = "EnqueueTensor_entry context input output ready name dev prio ver cb [] (heap_next s)"
  let ?s0 = "make_shared_counter s"
  have cp: "counter_ptr ?e = Some (heap_next s)" by (simp add: EnqueueTensor_entry_def)
  have B: "partition_bound ?s0 = partition_bound s" by (simp add: make_shared_counter_def)
  have pt: "PartitionTensor ?e [] ?s0 = Some (Inr (spec_partitions ?e S (partition_bound s), ?s0))"
    using PartitionTensor_eq [OF cp assms(2), of ?s0] assms(3,4,5) B by simp
  have n: "length (key_list context) = length (spec_partitions ?e S (partition_bound s))"
    using assms(6) by (simp add: spec_partitions_def)
  have "EnqueueTensor context input output ready name dev prio ver cb [] s =
     Some (Inr (OK, emit (E_callback cb OK) ?s0))"
    using assms(1) pt n by (rule EnqueueTensor_empty_queue_list)
  then have "EnqueueTensor context input output ready name dev prio ver cb [] s =
           Some (Inr (OK, s\<lparr>counters := (counters s)(heap_next s \<mapsto> 0),
                            heap_next := Suc (heap_next s),
                            trace := trace s @ [E_callback cb OK]\<rparr>))"
    by (simp add: emit_def make_shared_counter_def)
  then show ?thesis using pt n by simp
qed

theorem EnqueueTensor_empty_queue_list_callback_witness:
  "\<not> size_mismatch (Some example_tensor) (Some example_tensor) \<and>
   size example_tensor = 16 \<and> partition_bound (example_global True) = 1024 \<and>
   length (key_list (example_context [5])) = partition_count 16 1024 \<and>
   EnqueueTensor (example_context [5]) (Some example_tensor) (Some example_tensor)
       None ''grad'' 0 0 0 7 [] (example_global True) =
     Some (Inr (OK, (example_global True)
                      \<lparr>counters := [0 \<mapsto> 0, 1 \<mapsto> 0], heap_next := 2,
                       trace := [E_callback 7 OK]\<rparr>)) \<and>
   scheduled_queues ((example_global True)
                      \<lparr>counters := [0 \<mapsto> 0, 1 \<mapsto> 0], heap_next := 2,
                       trace := [E_callback 7 OK]\<rparr>) = (\<lambda>_. empty_queue)"
proof -
  have m: "\<not> size_mismatch (Some example_tensor) (Some example_tensor)"
    by (simp add: size_mismatch_def)
  have sz: "entry_size (EnqueueTensor_entry (example_context [5]) (Some example_tensor)
               (Some example_tensor) None ''grad'' 0 0 0 7 [] (heap_next (example_global True))) =
            Some 16"
    by (simp add: entry_size_def EnqueueTensor_entry_def example_tensor_def)
  have b: "0 < partition_bound (example_global True)" "partition_bound (example_global True) = 1024"
    by (simp_all add: example_global_def)
  have n: "length (key_list (example_context [5])) =
      partition_count 16 (partition_bound (example_global True))"
    by (simp add: example_context_def partition_count_def example_global_def)
  show ?thesis
    using EnqueueTensor_empty_queue_list_callback [OF m sz b(1) _ _ n] m b(2) n
    by (simp add: example_global_def example_tensor_def)
qed

lemma PartitionTensor_below_2GiB:
  assumes "0 < B" and "0 < S" and "S < 2 ^ 31"
  shows "PartitionTensor_loop entry S B 0 0 [] = Some (spec_partitions entry S B) \<and>
    length (spec_partitions entry S B) = partition_count S B \<and>
    (\<forall>i < partition_count S B.
       offset (spec_partitions entry S B ! i) = int i * B \<and>
       len (spec_partitions entry S B ! i) = min B (S - int i * B) \<and>
       tensor_name (spec_partitions entry S B ! i) = tensor_name entry @ ''_'' @ to_string i \<and>
       counter_ptr (spec_partitions entry S B ! i) = counter_ptr entry \<and>
       callback (spec_partitions entry S B ! i) = callback entry \<and>
       queue_list (spec_partitions entry S B ! i) = queue_list entry) \<and>
    sum_list (map len (spec_partitions entry S B)) = S \<and>
    (17 \<le> B \<and> S = 3 * B + 17 \<longrightarrow> map len (spec_partitions entry S B) = [B, B, B, 17])"
proof (intro conjI allI impI)
  show "PartitionTensor_loop entry S B 0 0 [] = Some (spec_partitions entry S B)"
    using assms by (intro PartitionTensor_loop_spec_partitions) auto
  show "length (spec_partitions entry S B) = partition_count S B"
    by (simp add: spec_partitions_def)
  show "sum_list (map len (spec_partitions entry S B)) = S"
    using assms by (intro sum_len_spec_partitions) auto
next
  fix i assume i: "i < partition_count S B"
  then have nth: "spec_partitions entry S B ! i =
      new_partition entry i (int i * B) (min B (S - int i * B))"
    by (simp add: spec_partitions_def)
  show "offset (spec_partitions entry S B ! i) = int i * B"
    and "len (spec_partitions entry S B ! i) = min B (S - int i * B)"
    and "tensor_name (spec_partitions entry S B ! i) = tensor_name entry @ ''_'' @ to_string i"
    and "counter_ptr (spec_partitions entry S B ! i) = counter_ptr entry"
    and "callback (spec_partitions entry S B ! i) = callback entry"
    and "queue_list (spec_partitions entry S B ! i) = queue_list entry"
    unfolding nth by (simp_all add: new_partition_def)
next
  assume "17 \<le> B \<and> S = 3 * B + 17"
  then show "map len (spec_partitions entry S B) = [B, B, B, 17]"
    using lens_example [of B entry] by simp
qed

text \<open>
  Claim C6 says that for every byte size \<open>S > 0\<close> \<open>PartitionTensor\<close> produces the \<open>B\<close>-sized
  windows of the tensor, whose lengths sum to \<open>S\<close>, and that \<open>EnqueueTensor\<close> produces
  exactly \<open>|key_list|\<close> partitions. The loop counts the bytes in \<open>auto accumulated = 0\<close>, a
  32-bit \<open>int\<close>, which is below \<open>2^31\<close> whatever is added to it. For every tensor of \<open>2^31\<close>
  bytes or more, and every partition bound, the loop therefore never ends:
  \<open>PartitionTensor\<close> never returns, and neither does a call of \<open>EnqueueTensor\<close> that reaches
  it; no partition is produced and none is enqueued. (Below \<open>2^31\<close> bytes and with a
  positive bound the loop computes the partitions of the claim, by
  \<open>PartitionTensor_below_2GiB\<close>.)
\<close>

theorem PartitionTensor_never_returns_from_2GiB:
  assumes "(2::int) ^ 31 \<le> S"
  shows "PartitionTensor_loop entry S B 0 0 [] = None \<and>
     (counter_ptr entry = Some c \<and> entry_size entry = Some S \<longrightarrow>
        PartitionTensor entry [] s = None) \<and>
     (\<not> size_mismatch tin tout \<and>
      entry_size (EnqueueTensor_entry cx tin tout ready name dev prio ver cb ql
                    (heap_next s)) = Some S \<longrightarrow>
        EnqueueTensor cx tin tout ready name dev prio ver cb ql s = None)"
proof (intro conjI impI)
  show "PartitionTensor_loop entry S B 0 0 [] = None"
    using assms by (intro PartitionTensor_loop_never_returns) simp_all
next
  assume "counter_ptr entry = Some c \<and> entry_size entry = Some S"
  then show "PartitionTensor entry [] s = None"
    using PartitionTensor_never_returns [of entry c S s "[]"]
      PartitionTensor_loop_never_returns [OF assms, of 0 entry "partition_bound s" 0 "[]"]
    by simp
next
  assume "\<not> size_mismatch tin tout \<and>
      entry_size (EnqueueTensor_entry cx tin tout ready name dev prio ver cb ql
                    (heap_next s)) = Some S"
  then show "EnqueueTensor cx tin tout ready name dev prio ver cb ql s = None"
    using EnqueueTensor_never_returns [of tin tout cx ready name dev prio ver cb ql s S]
      PartitionTensor_loop_never_returns [OF assms, of 0 _ "partition_bound s" 0 "[]"]
    by simp
qed

theorem PartitionTensor_never_returns_from_2GiB_witness:
  "(2::int) ^ 31 \<le> 2147483648 \<and>
   size (example_tensor\<lparr>size := 2147483648\<rparr>) = 2147483648 \<and>
   partition_bound ((example_global True)\<lparr>partition_bound := 1073741824\<rparr>) = 1073741824 \<and>
   map len (spec_partitions (example_task 0 [REDUCE]) 2147483648 1073741824) =
     [1073741824, 1073741824] \<and>
   length (key_list (example_context [10, 11])) = 2 \<and>
   PartitionTensor_loop (example_task 0 [REDUCE]) 2147483648 1073741824 0 0 [] = None \<and>
   PartitionTensor ((example_task 0 [REDUCE])\<lparr>tensor := Some (example_tensor\<lparr>size := 2147483648\<rparr>)\<rparr>)
       [] ((example_global True)\<lparr>partition_bound := 1073741824\<rparr>) = None \<and>
   EnqueueTensor (example_context [10, 11]) (Some (example_tensor\<lparr>size := 2147483648\<rparr>)) None
       None ''grad'' 0 0 0 7 [REDUCE, BROADCAST]
       ((example_global True)\<lparr>partition_bound := 1073741824\<rparr>) = None"
proof -
  have sp: "map len (spec_partitions (example_task 0 [REDUCE]) 2147483648 1073741824) =
     [1073741824, 1073741824]"
    by (simp add: spec_partitions_def partition_count_def new_partition_def upt_rec)
  show ?thesis
    using PartitionTensor_never_returns_from_2GiB [where S = 2147483648
        and entry = "example_task 0 [REDUCE]" and B = 1073741824 and c = 0
        and tin = "Some (example_tensor\<lparr>size := 2147483648\<rparr>)" and tout = None
        and cx = "example_context [10, 11]" and ready = None and name = "''grad''"
        and dev = 0 and prio = 0 and ver = 0 and cb = 7 and ql = "[REDUCE, BROADCAST]"
        and s = "(example_global True)\<lparr>partition_bound := 1073741824\<rparr>"]
      PartitionTensor_never_returns_from_2GiB [where S = 2147483648
        and entry = "(example_task 0 [REDUCE])
                       \<lparr>tensor := Some (example_tensor\<lparr>size := 2147483648\<rparr>)\<rparr>"
        and c = 0 and s = "(example_global True)\<lparr>partition_bound := 1073741824\<rparr>"]
      sp
    by (simp add: size_mismatch_def entry_size_def EnqueueTensor_entry_def example_task_def
        example_context_def)
qed

subsection \<open>The coordinate stages\<close>


lemma getTask_single:
  "is_ready t \<Longrightarrow> getTask \<lparr>sq = [t], finished = f\<rparr> = Some (t, \<lparr>sq = [], finished = f\<rparr>)"
  by (simp add: getTask_def)

subsection \<open>The non-root NCCL stage\<close>


lemma non_root_after_coordinate_reduce_eq:
  "non_root_after_coordinate_reduce =
     (example_global False)
       \<lparr>scheduled_queues :=
          (\<lambda>_. empty_queue)
            (COORDINATE_REDUCE := \<lparr>sq = [], finished = 8\<rparr>,
             REDUCE := \<lparr>sq = [example_task 3 [REDUCE, COORDINATE_BROADCAST, BROADCAST]],
                        finished = 0\<rparr>),
        trace := [E_addTask REDUCE 3,
                  E_sendSignal 0 \<lparr>src = 1, signal = REDUCE_READY, msg_key = 3\<rparr>,
                  E_reportFinish COORDINATE_REDUCE 8]\<rparr>"
  by (simp add: non_root_after_coordinate_reduce_def RunCoordinateLoopOnce_def with_queue_def
      getTask_single is_ready_def example_task_def example_global_def non_root_queue_list_def
      FinishOrProceed_def GetScheduledQueue_addTask_def GetScheduledQueue_reportFinish_def
      emit_def addTask_def reportFinish_def state_of_def empty_queue_def fun_upd_twist int32_id)

text \<open>
  Claim C3 says that for every \<open>DO_REDUCE{key}\<close> that the non-root NCCL stage receives for
  an item enqueued with the non-root queue list, the lookup finds the item, every check
  passes and \<open>ncclReduce\<close> is issued. The item below is enqueued with that list and
  handled by the CoordinateReduce stage, which leaves it on the REDUCE queue with three
  stages to go. On \<open>DO_REDUCE{3}\<close> the lookup finds it, and the check that the item has
  exactly one stage left stops the process: the trace ends with \<open>ncclGroupStart\<close>, and no
  collective has been issued.
\<close>

theorem NonRootNccl_DO_REDUCE_stops:
  "stopped (RunCoordinateLoopOnce COORDINATE_REDUCE
              (with_queue COORDINATE_REDUCE [example_task 3 non_root_queue_list]
                 (example_global False))) = None \<and>
   stopped (RunNonRootNcclLoopOnce
              (non_root_after_coordinate_reduce\<lparr>recv_queue := DO_REDUCE_then_DO_GROUP 3\<rparr>)) =
     Some (Fatal QueueListSizeNotOne) \<and>
   trace (state_of (RunNonRootNcclLoopOnce
              (non_root_after_coordinate_reduce\<lparr>recv_queue := DO_REDUCE_then_DO_GROUP 3\<rparr>))) =
     [E_addTask REDUCE 3,
      E_sendSignal 0 \<lparr>src = 1, signal = REDUCE_READY, msg_key = 3\<rparr>,
      E_reportFinish COORDINATE_REDUCE 8,
      E_ncclGroupStart]"
proof -
  have a: "stopped (RunCoordinateLoopOnce COORDINATE_REDUCE
              (with_queue COORDINATE_REDUCE [example_task 3 non_root_queue_list]
                 (example_global False))) = None"
    by (simp add: RunCoordinateLoopOnce_def with_queue_def
      getTask_single is_ready_def example_task_def example_global_def non_root_queue_list_def
      FinishOrProceed_def stopped_def Let_def)
  have b: "RunNonRootNcclLoopOnce
              (non_root_after_coordinate_reduce\<lparr>recv_queue := DO_REDUCE_then_DO_GROUP 3\<rparr>) =
      Inl (Fatal QueueListSizeNotOne,
           (example_global False)
       \<lparr>scheduled_queues :=
          (\<lambda>_. empty_queue)
            (COORDINATE_REDUCE := \<lparr>sq = [], finished = 8\<rparr>,
             REDUCE := \<lparr>sq = [], finished = 0\<rparr>),
        recv_queue := [(0, \<lparr>src = 0, signal = DO_GROUP, msg_key = 0\<rparr>)],
        trace := [E_addTask REDUCE 3,
                  E_sendSignal 0 \<lparr>src = 1, signal = REDUCE_READY, msg_key = 3\<rparr>,
                  E_reportFinish COORDINATE_REDUCE 8, E_ncclGroupStart]\<rparr>)"
    unfolding non_root_after_coordinate_reduce_eq
    by (simp add: RunNonRootNcclLoopOnce_def DO_REDUCE_then_DO_GROUP_def example_global_def
        emit_def getTask_key_def example_task_def empty_queue_def)
  show ?thesis using a unfolding b by (simp add: stopped_def state_of_def)
qed

subsection \<open>The root NCCL stage\<close>

lemma fold_pick_in_set:
  "fold (\<lambda>x best. if priority x < priority best then x else best) rs r \<in> set (r # rs)"
proof (induction rs arbitrary: r)
  case Nil
  then show ?case by simp
next
  case (Cons a rs)
  show ?case using Cons [of a] Cons [of r] by auto
qed

lemma getTask_mem:
  assumes "getTask q = Some (t, q')"
  shows "t \<in> set (sq q) \<and> set (sq q') \<subseteq> set (sq q) \<and> finished q' = finished q"
proof (cases "filter is_ready (sq q)")
  case Nil
  then show ?thesis using assms by (simp add: getTask_def)
next
  case (Cons r rs)
  let ?t = "fold (\<lambda>x best. if priority x < priority best then x else best) rs r"
  have t: "t = ?t" and q': "q' = q\<lparr>sq := remove1 ?t (sq q)\<rparr>"
    using assms Cons by (auto simp: getTask_def Let_def)
  have "?t \<in> set (r # rs)" by (rule fold_pick_in_set)
  then have "?t \<in> set (filter is_ready (sq q))" using Cons by simp
  then have "t \<in> set (sq q)" using t by simp
  moreover have "set (sq q') \<subseteq> set (sq q)" using q' by (simp add: set_remove1_subset)
  ultimately show ?thesis using q' by simp
qed

lemma RootNcclIssue_effect:
  assumes "RootNcclIssue this_op task s = Inr (u, s')"
  shows "\<exists>evs. s' = s\<lparr>trace := trace s @ evs\<rparr> \<and> (\<forall>ev\<in>set evs. is_item_event ev)"
proof -
  have frame: "s' = s\<lparr>trace := trace s'\<rparr>"
    using assms
    by (auto simp: RootNcclIssue_def Let_def emit_def split: option.splits if_splits)
  have "trace s' = trace s @ [] \<or>
      (\<exists>a b. trace s' = trace s @ [a, b] \<and> is_item_event a \<and> is_item_event b)"
    using assms
    by (auto simp: RootNcclIssue_def Let_def emit_def split: option.splits if_splits)
  then obtain evs where "trace s' = trace s @ evs" and "\<forall>ev\<in>set evs. is_item_event ev"
    by fastforce
  then show ?thesis using frame by metis
qed

lemma RootNcclPull_effect:
  "RootNcclPull this_op n e s = Inr (e', s') \<Longrightarrow>
   \<exists>ts evs.
     tasks e' = tasks e @ ts \<and> queues e' = queues e @ replicate (length ts) this_op \<and>
     cuda_event e' = cuda_event e \<and>
     set ts \<subseteq> set (sq (scheduled_queues s this_op)) \<and> length ts \<le> n \<and>
     (\<forall>ev\<in>set evs. is_item_event ev) \<and> (ts = [] \<longrightarrow> evs = [] \<and> s' = s) \<and>
     (\<exists>q. s' = s\<lparr>scheduled_queues := (scheduled_queues s)(this_op := q),
                   trace := trace s @ evs\<rparr> \<and>
          set (sq q) \<subseteq> set (sq (scheduled_queues s this_op)))"
proof (induction n arbitrary: e s)
  case 0
  then have "e' = e" "s' = s" by simp_all
  then have "tasks e' = tasks e @ [] \<and> queues e' = queues e @ replicate (length ([]::TensorTableEntry list)) this_op \<and>
     cuda_event e' = cuda_event e \<and>
     set [] \<subseteq> set (sq (scheduled_queues s this_op)) \<and> length ([]::TensorTableEntry list) \<le> 0 \<and>
     (\<forall>ev\<in>set []. is_item_event ev) \<and> (([]::TensorTableEntry list) = [] \<longrightarrow> ([]::event list) = [] \<and> s' = s) \<and>
     (s' = s\<lparr>scheduled_queues := (scheduled_queues s)(this_op := scheduled_queues s this_op),
                   trace := trace s @ []\<rparr> \<and>
          set (sq (scheduled_queues s this_op)) \<subseteq> set (sq (scheduled_queues s this_op)))"
    by simp
  then show ?case by blast
next
  case (Suc n)
  show ?case
  proof (cases "getTask (scheduled_queues s this_op)")
    case None
    then have "e' = e" "s' = s" using Suc.prems by simp_all
    then have "tasks e' = tasks e @ [] \<and> queues e' = queues e @ replicate (length ([]::TensorTableEntry list)) this_op \<and>
       cuda_event e' = cuda_event e \<and>
       set [] \<subseteq> set (sq (scheduled_queues s this_op)) \<and> length ([]::TensorTableEntry list) \<le> Suc n \<and>
       (\<forall>ev\<in>set []. is_item_event ev) \<and> (([]::TensorTableEntry list) = [] \<longrightarrow> ([]::event list) = [] \<and> s' = s) \<and>
       (s' = s\<lparr>scheduled_queues := (scheduled_queues s)(this_op := scheduled_queues s this_op),
                     trace := trace s @ []\<rparr> \<and>
            set (sq (scheduled_queues s this_op)) \<subseteq> set (sq (scheduled_queues s this_op)))"
      by simp
    then show ?thesis by blast
  next
    case (Some a)
    obtain task q' where a: "a = (task, q')" by (cases a)
    let ?s0 = "s\<lparr>scheduled_queues := (scheduled_queues s)(this_op := q')\<rparr>"
    let ?e1 = "e\<lparr>tasks := tasks e @ [task], queues := queues e @ [this_op]\<rparr>"
    have gm: "task \<in> set (sq (scheduled_queues s this_op))"
      "set (sq q') \<subseteq> set (sq (scheduled_queues s this_op))"
      using getTask_mem [of "scheduled_queues s this_op" task q'] Some a by simp_all
    obtain u s1 where iss: "RootNcclIssue this_op task ?s0 = Inr (u, s1)"
      and rec: "RootNcclPull this_op n ?e1 s1 = Inr (e', s')"
      using Suc.prems Some a by (auto split: sum.splits)
    obtain evs1 where s1: "s1 = ?s0\<lparr>trace := trace ?s0 @ evs1\<rparr>"
      and ev1: "\<forall>ev\<in>set evs1. is_item_event ev"
      using RootNcclIssue_effect [OF iss] by blast
    obtain ts evs q where IH:
      "tasks e' = tasks ?e1 @ ts" "queues e' = queues ?e1 @ replicate (length ts) this_op"
      "cuda_event e' = cuda_event ?e1"
      "set ts \<subseteq> set (sq (scheduled_queues s1 this_op))" "length ts \<le> n"
      "\<forall>ev\<in>set evs. is_item_event ev"
      "s' = s1\<lparr>scheduled_queues := (scheduled_queues s1)(this_op := q),
                   trace := trace s1 @ evs\<rparr>"
      "set (sq q) \<subseteq> set (sq (scheduled_queues s1 this_op))"
      using Suc.IH [OF rec] by blast
    have q1: "scheduled_queues s1 this_op = q'" using s1 by simp
    have "tasks e' = tasks e @ (task # ts)" using IH(1) by simp
    moreover have "queues e' = queues e @ replicate (length (task # ts)) this_op"
      using IH(2) by (simp add: replicate_append_same)
    moreover have "cuda_event e' = cuda_event e" using IH(3) by simp
    moreover have "set (task # ts) \<subseteq> set (sq (scheduled_queues s this_op))"
      using IH(4) gm q1 by auto
    moreover have "length (task # ts) \<le> Suc n" using IH(5) by simp
    moreover have "\<forall>ev\<in>set (evs1 @ evs). is_item_event ev" using ev1 IH(6) by auto
    moreover have "task # ts = [] \<longrightarrow> evs1 @ evs = [] \<and> s' = s" by simp
    moreover have "s' = s\<lparr>scheduled_queues := (scheduled_queues s)(this_op := q),
                   trace := trace s @ (evs1 @ evs)\<rparr>"
      unfolding IH(7) s1 by simp
    moreover have "set (sq q) \<subseteq> set (sq (scheduled_queues s this_op))"
      using IH(8) q1 gm(2) by auto
    ultimately show ?thesis by blast
  qed
qed

lemma const_upd_same: "(\<lambda>_. c)(x := c) = (\<lambda>_. c)"
  by (rule ext) simp

lemma root_pull_reduce_example:
  "RootNcclPull REDUCE (nat (nccl_group_size root_with_reduce_item)) new_NcclGroupEntry
     (emit E_ncclGroupStart root_with_reduce_item) =
   Inr (\<lparr>tasks = [example_task 0 [REDUCE, BROADCAST]], queues = [REDUCE], cuda_event = 0\<rparr>,
        (example_global True)
          \<lparr>scheduled_queues := (\<lambda>_. empty_queue),
           trace := [E_ncclGroupStart,
                     E_broadcastSignal 0 \<lparr>src = 0, signal = DO_REDUCE, msg_key = 0\<rparr>,
                     E_ncclReduce 0 2 0]\<rparr>)"
  by (simp add: root_with_reduce_item_def with_queue_def example_global_def emit_def
      eval_nat_numeral getTask_single is_ready_def example_task_def RootNcclIssue_def
      example_tensor_def CPU_DEVICE_ID_def cmod_def cdiv_def new_NcclGroupEntry_def
      empty_queue_def getTask_def Let_def const_upd_same int32_id)

lemma root_pull_broadcast_example:
  "RootNcclPull BROADCAST (nat (nccl_group_size root_with_reduce_item))
     \<lparr>tasks = [example_task 0 [REDUCE, BROADCAST]], queues = [REDUCE], cuda_event = 0\<rparr>
     ((example_global True)
          \<lparr>scheduled_queues := (\<lambda>_. empty_queue),
           trace := [E_ncclGroupStart,
                     E_broadcastSignal 0 \<lparr>src = 0, signal = DO_REDUCE, msg_key = 0\<rparr>,
                     E_ncclReduce 0 2 0]\<rparr>) =
   Inr (\<lparr>tasks = [example_task 0 [REDUCE, BROADCAST]], queues = [REDUCE], cuda_event = 0\<rparr>,
        (example_global True)
          \<lparr>scheduled_queues := (\<lambda>_. empty_queue),
           trace := [E_ncclGroupStart,
                     E_broadcastSignal 0 \<lparr>src = 0, signal = DO_REDUCE, msg_key = 0\<rparr>,
                     E_ncclReduce 0 2 0]\<rparr>)"
  by (simp add: root_with_reduce_item_def with_queue_def example_global_def
      eval_nat_numeral empty_queue_def getTask_def)

lemma root_loop_example:
  "RunRootNcclLoopOnce root_with_reduce_item =
     Inr (True,
        (example_global True)
          \<lparr>scheduled_queues := (\<lambda>_. empty_queue),
           nccl_groups := [\<lparr>tasks = [example_task 0 [REDUCE, BROADCAST]], queues = [REDUCE],
                             cuda_event = 0\<rparr>],
           events_created := 1,
           trace := [E_ncclGroupStart,
                     E_broadcastSignal 0 \<lparr>src = 0, signal = DO_REDUCE, msg_key = 0\<rparr>,
                     E_ncclReduce 0 2 0,
                     E_broadcastSignal 0 (DO_GROUP_msg 0),
                     E_ncclGroupEnd,
                     E_cudaEventCreate 0,
                     E_cudaEventRecord 0,
                     E_EnqueueNcclGroup
                       \<lparr>tasks = [example_task 0 [REDUCE, BROADCAST]], queues = [REDUCE],
                          cuda_event = 0\<rparr>]\<rparr>)"
proof -
  have r: "local_rank root_with_reduce_item = root root_with_reduce_item"
    "nccl_group_size ((example_global True)
          \<lparr>scheduled_queues := (\<lambda>_. empty_queue),
           trace := [E_ncclGroupStart,
                     E_broadcastSignal 0 \<lparr>src = 0, signal = DO_REDUCE, msg_key = 0\<rparr>,
                     E_ncclReduce 0 2 0]\<rparr>) = nccl_group_size root_with_reduce_item"
    by (simp_all add: root_with_reduce_item_def with_queue_def example_global_def)
  show ?thesis
    unfolding RunRootNcclLoopOnce_def
    by (simp only: r root_pull_reduce_example root_pull_broadcast_example sum.case prod.case
        if_False simp_thms)
      (simp add: Let_def emit_def EnqueueNcclGroup_def example_global_def DO_GROUP_msg_def)
qed

text \<open>
  Claim C4 says that an iteration of the root's loop that pulled an item ends the NCCL
  group first and broadcasts \<open>DO_GROUP\<close> after the group end. In the iteration below one
  item is pulled, and \<open>DO_GROUP\<close> is broadcast before \<open>ncclGroupEnd\<close>, not after it.
\<close>

theorem RunRootNcclLoopOnce_order_counterexample:
  "stopped (RunRootNcclLoopOnce root_with_reduce_item) = None \<and>
   trace (state_of (RunRootNcclLoopOnce root_with_reduce_item)) =
     [E_ncclGroupStart,
      E_broadcastSignal 0 \<lparr>src = 0, signal = DO_REDUCE, msg_key = 0\<rparr>,
      E_ncclReduce 0 2 0,
      E_broadcastSignal 0 (DO_GROUP_msg 0),
      E_ncclGroupEnd,
      E_cudaEventCreate 0,
      E_cudaEventRecord 0,
      E_EnqueueNcclGroup
        \<lparr>tasks = [example_task 0 [REDUCE, BROADCAST]], queues = [REDUCE], cuda_event = 0\<rparr>] \<and>
   \<not> occurs_before E_ncclGroupEnd (E_broadcastSignal 0 (DO_GROUP_msg 0))
       (trace (state_of (RunRootNcclLoopOnce root_with_reduce_item))) \<and>
   occurs_before (E_broadcastSignal 0 (DO_GROUP_msg 0)) E_ncclGroupEnd
       (trace (state_of (RunRootNcclLoopOnce root_with_reduce_item)))"
  unfolding root_loop_example
  by (simp add: stopped_def state_of_def occurs_before_def DO_GROUP_msg_def)

lemma RootNcclIssue_total:
  assumes "(if this_op = REDUCE then tensor task else output_tensor task) = Some tn"
    and "device task \<noteq> CPU_DEVICE_ID \<longrightarrow>
           has_data tn \<and> num_elements tn \<noteq> 0 \<and> cmod (size tn) (num_elements tn) = 0 \<and>
           (1 < local_size s \<longrightarrow> cdiv (size tn) (num_elements tn) \<noteq> 0)"
  shows "\<exists>s'. RootNcclIssue this_op task s = Inr ((), s')"
  using assms by (auto simp: RootNcclIssue_def Let_def)

lemma RootNcclPull_total:
  "\<forall>t\<in>set (sq (scheduled_queues s this_op)). root_item_ok (local_size s) this_op t \<Longrightarrow>
   \<exists>e' s'. RootNcclPull this_op n e s = Inr (e', s')"
proof (induction n arbitrary: e s)
  case 0
  then show ?case by simp
next
  case (Suc n)
  show ?case
  proof (cases "getTask (scheduled_queues s this_op)")
    case None
    then show ?thesis by simp
  next
    case (Some a)
    obtain task q' where a: "a = (task, q')" by (cases a)
    let ?s0 = "s\<lparr>scheduled_queues := (scheduled_queues s)(this_op := q')\<rparr>"
    have gm: "task \<in> set (sq (scheduled_queues s this_op))"
      "set (sq q') \<subseteq> set (sq (scheduled_queues s this_op))"
      using getTask_mem [of "scheduled_queues s this_op" task q'] Some a by simp_all
    have ok: "root_item_ok (local_size s) this_op task"
      using Suc.prems gm(1) by auto
    then obtain tn where tn: "(if this_op = REDUCE then tensor task else output_tensor task) = Some tn"
      by (auto simp: root_item_ok_def split: option.splits)
    have "\<exists>s'. RootNcclIssue this_op task ?s0 = Inr ((), s')"
      using ok unfolding root_item_ok_def tn option.case
      by (intro RootNcclIssue_total [OF tn]) simp
    then obtain s1 where iss: "RootNcclIssue this_op task ?s0 = Inr ((), s1)" by blast
    obtain evs where s1: "s1 = ?s0\<lparr>trace := trace ?s0 @ evs\<rparr>"
      using RootNcclIssue_effect [OF iss] by blast
    have ls: "local_size s1 = local_size s" by (subst s1) simp
    have "\<forall>t\<in>set (sq (scheduled_queues s1 this_op)). root_item_ok (local_size s1) this_op t"
    proof
      fix t assume "t \<in> set (sq (scheduled_queues s1 this_op))"
      then have "t \<in> set (sq q')" by (subst (asm) s1) simp
      then show "root_item_ok (local_size s1) this_op t" unfolding ls using Suc.prems gm(2) by auto
    qed
    from Suc.IH [OF this]
    obtain e' s' where "RootNcclPull this_op n
        (e\<lparr>tasks := tasks e @ [task], queues := queues e @ [this_op]\<rparr>) s1 = Inr (e', s')"
      by blast
    then show ?thesis using Some a iss by simp
  qed
qed

lemma root_idle_example:
  "RunRootNcclLoopOnce (example_global True) =
     Inr (True, (example_global True)\<lparr>trace := [E_ncclGroupStart, E_ncclGroupEnd, E_sleep 1000]\<rparr>)"
  by (simp add: RunRootNcclLoopOnce_def example_global_def emit_def eval_nat_numeral
      getTask_def empty_queue_def new_NcclGroupEntry_def)

text \<open>
  Claim C4, amended. In every iteration of the root NCCL loop in which every pulled item
  passes the loop's checks (the two pull loops return), the iteration returns; if at
  least one item was pulled, then after the signals and collectives of the items the
  root broadcasts \<open>DO_GROUP\<close>, then ends the NCCL group, then creates and records an
  accelerator event, and then hands the batch with that event to the SyncNccl stage; if
  no item was pulled, it ends the empty group and sleeps 1000 ns, and changes nothing
  else. The pull loops return whenever every item on the REDUCE and BROADCAST queues
  passes the checks of its stage.
\<close>

theorem RunRootNcclLoopOnce_group_order:
  assumes "local_rank s = root s"
  shows "(RootNcclPull REDUCE (nat (nccl_group_size s)) new_NcclGroupEntry
            (emit E_ncclGroupStart s) = Inr (e1, s1) \<and>
          RootNcclPull BROADCAST (nat (nccl_group_size s)) e1 s1 = Inr (e2, s2) \<longrightarrow>
            (\<exists>evs s'.
               RunRootNcclLoopOnce s = Inr (True, s') \<and>
               (\<forall>ev\<in>set evs. is_item_event ev) \<and>
               (tasks e2 \<noteq> [] \<longrightarrow>
                  trace s' = trace s @ E_ncclGroupStart # evs @
                    [E_broadcastSignal (local_rank s) (DO_GROUP_msg (local_rank s)),
                     E_ncclGroupEnd,
                     E_cudaEventCreate (events_created s),
                     E_cudaEventRecord (events_created s),
                     E_EnqueueNcclGroup (e2\<lparr>cuda_event := events_created s\<rparr>)] \<and>
                  nccl_groups s' = nccl_groups s @ [e2\<lparr>cuda_event := events_created s\<rparr>]) \<and>
               (tasks e2 = [] \<longrightarrow>
                  trace s' = trace s @ [E_ncclGroupStart, E_ncclGroupEnd, E_sleep 1000] \<and>
                  nccl_groups s' = nccl_groups s \<and>
                  scheduled_queues s' = scheduled_queues s))) \<and>
         ((\<forall>t\<in>set (sq (scheduled_queues s REDUCE)). root_item_ok (local_size s) REDUCE t) \<and>
          (\<forall>t\<in>set (sq (scheduled_queues s BROADCAST)). root_item_ok (local_size s) BROADCAST t) \<longrightarrow>
            (\<exists>e1 s1 e2 s2.
               RootNcclPull REDUCE (nat (nccl_group_size s)) new_NcclGroupEntry
                 (emit E_ncclGroupStart s) = Inr (e1, s1) \<and>
               RootNcclPull BROADCAST (nat (nccl_group_size s)) e1 s1 = Inr (e2, s2)))"
proof (intro conjI impI)
  assume "RootNcclPull REDUCE (nat (nccl_group_size s)) new_NcclGroupEntry
            (emit E_ncclGroupStart s) = Inr (e1, s1) \<and>
          RootNcclPull BROADCAST (nat (nccl_group_size s)) e1 s1 = Inr (e2, s2)"
  then have pull1: "RootNcclPull REDUCE (nat (nccl_group_size s)) new_NcclGroupEntry
            (emit E_ncclGroupStart s) = Inr (e1, s1)"
    and pull2: "RootNcclPull BROADCAST (nat (nccl_group_size s)) e1 s1 = Inr (e2, s2)"
    by simp_all
  show "\<exists>evs s'.
               RunRootNcclLoopOnce s = Inr (True, s') \<and>
               (\<forall>ev\<in>set evs. is_item_event ev) \<and>
               (tasks e2 \<noteq> [] \<longrightarrow>
                  trace s' = trace s @ E_ncclGroupStart # evs @
                    [E_broadcastSignal (local_rank s) (DO_GROUP_msg (local_rank s)),
                     E_ncclGroupEnd,
                     E_cudaEventCreate (events_created s),
                     E_cudaEventRecord (events_created s),
                     E_EnqueueNcclGroup (e2\<lparr>cuda_event := events_created s\<rparr>)] \<and>
                  nccl_groups s' = nccl_groups s @ [e2\<lparr>cuda_event := events_created s\<rparr>]) \<and>
               (tasks e2 = [] \<longrightarrow>
                  trace s' = trace s @ [E_ncclGroupStart, E_ncclGroupEnd, E_sleep 1000] \<and>
                  nccl_groups s' = nccl_groups s \<and>
                  scheduled_queues s' = scheduled_queues s)"
  proof -
    let ?g = "emit E_ncclGroupStart s"
    obtain ts1 evs1 q1 where p1:
      "tasks e1 = tasks new_NcclGroupEntry @ ts1" "\<forall>ev\<in>set evs1. is_item_event ev"
      "ts1 = [] \<longrightarrow> evs1 = [] \<and> s1 = ?g"
      "s1 = ?g\<lparr>scheduled_queues := (scheduled_queues ?g)(REDUCE := q1), trace := trace ?g @ evs1\<rparr>"
      using RootNcclPull_effect [OF pull1] by blast
    obtain ts2 evs2 q2 where p2:
      "tasks e2 = tasks e1 @ ts2" "\<forall>ev\<in>set evs2. is_item_event ev"
      "ts2 = [] \<longrightarrow> evs2 = [] \<and> s2 = s1"
      "s2 = s1\<lparr>scheduled_queues := (scheduled_queues s1)(BROADCAST := q2), trace := trace s1 @ evs2\<rparr>"
      using RootNcclPull_effect [OF pull2] by blast
    have cfg1: "nccl_group_size s1 = nccl_group_size s" using p1(4) by (simp add: emit_def)
    have cfg2: "local_rank s2 = local_rank s" "events_created s2 = events_created s"
      "nccl_groups s2 = nccl_groups s"
      using p1(4) p2(4) by (simp_all add: emit_def)
    have tr2: "trace s2 = trace s @ E_ncclGroupStart # (evs1 @ evs2)"
      using p1(4) p2(4) by (simp add: emit_def)
    have evs: "\<forall>ev\<in>set (evs1 @ evs2). is_item_event ev" using p1(2) p2(2) by auto
    show ?thesis
    proof (cases "tasks e2 = []")
      case True
      then have "ts1 = []" "ts2 = []" using p1(1) p2(1) by simp_all
      then have same: "s2 = ?g" "evs1 @ evs2 = []" using p1(3) p2(3) by simp_all
      let ?s' = "emit (E_sleep 1000) (emit E_ncclGroupEnd s2)"
      have "RunRootNcclLoopOnce s = Inr (True, ?s')"
        using assms pull1 pull2 True by (simp add: RunRootNcclLoopOnce_def cfg1)
      moreover have "trace ?s' = trace s @ [E_ncclGroupStart, E_ncclGroupEnd, E_sleep 1000]"
        "nccl_groups ?s' = nccl_groups s" "scheduled_queues ?s' = scheduled_queues s"
        using same by (simp_all add: emit_def)
      ultimately show ?thesis using True evs by blast
    next
      case False
      let ?ev = "events_created s"
      let ?s' = "EnqueueNcclGroup (e2\<lparr>cuda_event := ?ev\<rparr>)
          (emit (E_cudaEventRecord ?ev)
            (emit (E_cudaEventCreate ?ev)
              ((emit E_ncclGroupEnd
                 (emit (E_broadcastSignal (local_rank s) (DO_GROUP_msg (local_rank s))) s2))
               \<lparr>events_created := Suc ?ev\<rparr>)))"
      have "RunRootNcclLoopOnce s = Inr (True, ?s')"
        using assms pull1 pull2 False cfg2
        by (simp add: RunRootNcclLoopOnce_def cfg1 Let_def emit_def DO_GROUP_msg_def)
      moreover have "trace ?s' = trace s @ E_ncclGroupStart # (evs1 @ evs2) @
            [E_broadcastSignal (local_rank s) (DO_GROUP_msg (local_rank s)),
             E_ncclGroupEnd, E_cudaEventCreate ?ev, E_cudaEventRecord ?ev,
             E_EnqueueNcclGroup (e2\<lparr>cuda_event := ?ev\<rparr>)]"
        using tr2 by (simp add: EnqueueNcclGroup_def emit_def)
      moreover have "nccl_groups ?s' = nccl_groups s @ [e2\<lparr>cuda_event := ?ev\<rparr>]"
        using cfg2 by (simp add: EnqueueNcclGroup_def emit_def)
      ultimately show ?thesis using False evs by blast
    qed
  qed
next
  assume h: "(\<forall>t\<in>set (sq (scheduled_queues s REDUCE)). root_item_ok (local_size s) REDUCE t) \<and>
          (\<forall>t\<in>set (sq (scheduled_queues s BROADCAST)). root_item_ok (local_size s) BROADCAST t)"
  let ?g = "emit E_ncclGroupStart s"
  have "\<forall>t\<in>set (sq (scheduled_queues ?g REDUCE)). root_item_ok (local_size ?g) REDUCE t"
    using h by (simp add: emit_def)
  then obtain e1 s1 where
    p1: "RootNcclPull REDUCE (nat (nccl_group_size s)) new_NcclGroupEntry ?g = Inr (e1, s1)"
    using RootNcclPull_total by blast
  obtain q1 evs1 where s1:
    "s1 = ?g\<lparr>scheduled_queues := (scheduled_queues ?g)(REDUCE := q1), trace := trace ?g @ evs1\<rparr>"
    using RootNcclPull_effect [OF p1] by blast
  have c: "local_size s1 = local_size s" "scheduled_queues s1 BROADCAST = scheduled_queues s BROADCAST"
    by (subst s1, simp add: emit_def)+
  have "\<forall>t\<in>set (sq (scheduled_queues s1 BROADCAST)). root_item_ok (local_size s1) BROADCAST t"
    unfolding c using h by simp
  then obtain e2 s2 where
    p2: "RootNcclPull BROADCAST (nat (nccl_group_size s)) e1 s1 = Inr (e2, s2)"
    using RootNcclPull_total by blast
  show "\<exists>e1 s1 e2 s2.
               RootNcclPull REDUCE (nat (nccl_group_size s)) new_NcclGroupEntry
                 (emit E_ncclGroupStart s) = Inr (e1, s1) \<and>
               RootNcclPull BROADCAST (nat (nccl_group_size s)) e1 s1 = Inr (e2, s2)"
    using p1 p2 by blast
qed

theorem RunRootNcclLoopOnce_group_order_witness:
  "local_rank root_with_reduce_item = root root_with_reduce_item \<and>
   sq (scheduled_queues root_with_reduce_item REDUCE) = [example_task 0 [REDUCE, BROADCAST]] \<and>
   root_item_ok (local_size root_with_reduce_item) REDUCE (example_task 0 [REDUCE, BROADCAST]) \<and>
   sq (scheduled_queues root_with_reduce_item BROADCAST) = [] \<and>
   (\<exists>s1. RootNcclPull REDUCE (nat (nccl_group_size root_with_reduce_item)) new_NcclGroupEntry
            (emit E_ncclGroupStart root_with_reduce_item) = Inr (root_group, s1) \<and>
          RootNcclPull BROADCAST (nat (nccl_group_size root_with_reduce_item)) root_group s1 =
            Inr (root_group, s1)) \<and>
   tasks root_group \<noteq> [] \<and>
   (\<exists>evs s'.
     RunRootNcclLoopOnce root_with_reduce_item = Inr (True, s') \<and>
     (\<forall>ev\<in>set evs. is_item_event ev) \<and>
     trace s' = E_ncclGroupStart # evs @
          [E_broadcastSignal 0 (DO_GROUP_msg 0),
           E_ncclGroupEnd,
           E_cudaEventCreate 0,
           E_cudaEventRecord 0,
           E_EnqueueNcclGroup root_group] \<and>
     nccl_groups s' = [root_group]) \<and>
   local_rank (example_global True) = root (example_global True) \<and>
   (\<exists>s'. RunRootNcclLoopOnce (example_global True) = Inr (True, s') \<and>
         trace s' = [E_ncclGroupStart, E_ncclGroupEnd, E_sleep 1000] \<and>
         nccl_groups s' = [] \<and> scheduled_queues s' = (\<lambda>_. empty_queue))"
proof -
  let ?s1 = "(example_global True)
          \<lparr>scheduled_queues := (\<lambda>_. empty_queue),
           trace := [E_ncclGroupStart,
                     E_broadcastSignal 0 \<lparr>src = 0, signal = DO_REDUCE, msg_key = 0\<rparr>,
                     E_ncclReduce 0 2 0]\<rparr>"
  have r: "local_rank root_with_reduce_item = root root_with_reduce_item"
    by (simp add: root_with_reduce_item_def with_queue_def example_global_def)
  have q: "sq (scheduled_queues root_with_reduce_item REDUCE) = [example_task 0 [REDUCE, BROADCAST]]"
    "sq (scheduled_queues root_with_reduce_item BROADCAST) = []"
    by (simp_all add: root_with_reduce_item_def with_queue_def example_global_def empty_queue_def)
  have ok: "root_item_ok (local_size root_with_reduce_item) REDUCE (example_task 0 [REDUCE, BROADCAST])"
    by (simp add: root_item_ok_def example_task_def example_tensor_def cmod_def cdiv_def)
  have c: "local_rank root_with_reduce_item = 0" "events_created root_with_reduce_item = 0"
    "trace root_with_reduce_item = []" "nccl_groups root_with_reduce_item = []"
    by (simp_all add: root_with_reduce_item_def with_queue_def example_global_def)
  have p1: "RootNcclPull REDUCE (nat (nccl_group_size root_with_reduce_item)) new_NcclGroupEntry
       (emit E_ncclGroupStart root_with_reduce_item) = Inr (root_group, ?s1)"
    unfolding root_pull_reduce_example by (simp add: root_group_def)
  have p2: "RootNcclPull BROADCAST (nat (nccl_group_size root_with_reduce_item)) root_group ?s1 =
       Inr (root_group, ?s1)"
    unfolding root_group_def root_pull_broadcast_example by simp
  have t: "tasks root_group \<noteq> []" "root_group\<lparr>cuda_event := 0\<rparr> = root_group"
    by (simp_all add: root_group_def)
  note A = RunRootNcclLoopOnce_group_order [OF r, where ?e1.0 = root_group and ?s1.0 = ?s1
      and ?e2.0 = root_group and ?s2.0 = ?s1, THEN conjunct1, rule_format, OF conjI [OF p1 p2]]
  then obtain evs s' where w:
    "RunRootNcclLoopOnce root_with_reduce_item = Inr (True, s')"
    "\<forall>ev\<in>set evs. is_item_event ev"
    "tasks root_group \<noteq> [] \<longrightarrow>
        trace s' = trace root_with_reduce_item @ E_ncclGroupStart # evs @
          [E_broadcastSignal (local_rank root_with_reduce_item)
             (DO_GROUP_msg (local_rank root_with_reduce_item)),
           E_ncclGroupEnd,
           E_cudaEventCreate (events_created root_with_reduce_item),
           E_cudaEventRecord (events_created root_with_reduce_item),
           E_EnqueueNcclGroup (root_group\<lparr>cuda_event := events_created root_with_reduce_item\<rparr>)] \<and>
        nccl_groups s' = nccl_groups root_with_reduce_item @
          [root_group\<lparr>cuda_event := events_created root_with_reduce_item\<rparr>]"
    by blast
  have busy: "\<exists>evs s'.
     RunRootNcclLoopOnce root_with_reduce_item = Inr (True, s') \<and>
     (\<forall>ev\<in>set evs. is_item_event ev) \<and>
     trace s' = E_ncclGroupStart # evs @
          [E_broadcastSignal 0 (DO_GROUP_msg 0),
           E_ncclGroupEnd,
           E_cudaEventCreate 0,
           E_cudaEventRecord 0,
           E_EnqueueNcclGroup root_group] \<and>
     nccl_groups s' = [root_group]"
    using w t by (simp add: c)
  have r0: "local_rank (example_global True) = root (example_global True)"
    by (simp add: example_global_def)
  have idle: "\<exists>s'. RunRootNcclLoopOnce (example_global True) = Inr (True, s') \<and>
         trace s' = [E_ncclGroupStart, E_ncclGroupEnd, E_sleep 1000] \<and>
         nccl_groups s' = [] \<and> scheduled_queues s' = (\<lambda>_. empty_queue)"
    unfolding root_idle_example by (simp add: example_global_def)
  have pulls: "\<exists>s1. RootNcclPull REDUCE (nat (nccl_group_size root_with_reduce_item)) new_NcclGroupEntry
            (emit E_ncclGroupStart root_with_reduce_item) = Inr (root_group, s1) \<and>
          RootNcclPull BROADCAST (nat (nccl_group_size root_with_reduce_item)) root_group s1 =
            Inr (root_group, s1)"
    using p1 p2 by blast
  show ?thesis using r q ok pulls t(1) busy r0 idle by (intro conjI)
qed

subsection \<open>byteps_init\<close>

text \<open>
  Claim C9. \<open>byteps_init\<close> starts exactly the loops of the role: on a root device the
  RootNccl and SyncNccl loops, and the CopyD2H, Push, Pull and CopyH2D loops if and only
  if the job is distributed; on a non-root device the CoordinateReduce, NonRootNccl,
  SyncNccl and CoordinateBroadcast loops; each loop once. A distributed root starts at
  least 5 loops and a non-root at least 4.
\<close>

theorem byteps_init_starts_role_loops:
  "threads (byteps_init s) = threads s @ byteps_init_func s \<and>
   distinct (byteps_init_func s) \<and>
   (is_root_device s \<longrightarrow>
      set (byteps_init_func s) =
        {RootNcclLoop, SyncNcclLoop} \<union>
        (if is_distributed s
         then {CopyDevice2HostLoop, PushLoop, PullLoop, CopyHost2DeviceLoop} else {})) \<and>
   (\<not> is_root_device s \<longrightarrow>
      set (byteps_init_func s) =
        {CoordinateReduceLoop, NonRootNcclLoop, SyncNcclLoop, CoordinateBroadcastLoop}) \<and>
   (is_root_device s \<and> is_distributed s \<longrightarrow> 5 \<le> length (byteps_init_func s)) \<and>
   (\<not> is_root_device s \<longrightarrow> 4 \<le> length (byteps_init_func s))"
  by (auto simp: byteps_init_def byteps_init_func_def Init_def Start_def)

theorem byteps_init_starts_role_loops_witness:
  "threads (byteps_init (example_global True)) = [RootNcclLoop, SyncNcclLoop] \<and>
   threads (byteps_init ((example_global True)\<lparr>is_distributed := True\<rparr>)) =
     [RootNcclLoop, SyncNcclLoop, CopyDevice2HostLoop, PushLoop, PullLoop, CopyHost2DeviceLoop] \<and>
   5 \<le> length (byteps_init_func ((example_global True)\<lparr>is_distributed := True\<rparr>)) \<and>
   threads (byteps_init (example_global False)) =
     [CoordinateReduceLoop, NonRootNcclLoop, SyncNcclLoop, CoordinateBroadcastLoop] \<and>
   4 \<le> length (byteps_init_func (example_global False))"
  using byteps_init_starts_role_loops [of "example_global True"]
    byteps_init_starts_role_loops [of "(example_global True)\<lparr>is_distributed := True\<rparr>"]
    byteps_init_starts_role_loops [of "example_global False"]
  by (simp add: example_global_def byteps_init_func_def)

subsection \<open>The sync stage\<close>

lemma SyncNcclTasks_no_queues:
  "queues e = [] \<Longrightarrow> SyncNcclTasks i e s = FinishOrProceed_each (drop i (tasks e)) s"
proof (induction i e s rule: SyncNcclTasks.induct)
  case (1 i e s)
  show ?case
  proof (cases "i < length (tasks e)")
    case False
    then show ?thesis by (subst SyncNcclTasks.simps) simp
  next
    case True
    then have d: "drop i (tasks e) = tasks e ! i # drop (Suc i) (tasks e)"
      by (simp add: Cons_nth_drop_Suc)
    show ?thesis
    proof (cases "FinishOrProceed (tasks e ! i) s")
      case (Inl x)
      then show ?thesis using True by (subst SyncNcclTasks.simps) (simp add: d)
    next
      case (Inr y)
      obtain u s1 where y: "y = (u, s1)" by (cases y)
      have "SyncNcclTasks (Suc i) e s1 = FinishOrProceed_each (drop (Suc i) (tasks e)) s1"
        using 1(1) [OF True Inr [unfolded y] refl] 1(2) by simp
      then show ?thesis using True Inr y 1(2)
        by (subst SyncNcclTasks.simps) (simp add: d)
    qed
  qed
qed

lemma SyncNcclTasks_all_queues:
  "length (queues e) = length (tasks e) \<Longrightarrow>
   SyncNcclTasks i e s = FinishOrProceed_report_each (drop i (zip (tasks e) (queues e))) s"
proof (induction i e s rule: SyncNcclTasks.induct)
  case (1 i e s)
  show ?case
  proof (cases "i < length (tasks e)")
    case False
    then show ?thesis using 1(2) by (subst SyncNcclTasks.simps) simp
  next
    case True
    then have d: "drop i (zip (tasks e) (queues e)) =
        (tasks e ! i, queues e ! i) # drop (Suc i) (zip (tasks e) (queues e))"
      using 1(2) by (simp add: Cons_nth_drop_Suc [symmetric])
    show ?thesis
    proof (cases "FinishOrProceed (tasks e ! i) s")
      case (Inl x)
      then show ?thesis using True by (subst SyncNcclTasks.simps) (simp add: d)
    next
      case (Inr y)
      obtain u s1 where y: "y = (u, s1)" by (cases y)
      let ?s2 = "GetScheduledQueue_reportFinish (queues e ! i) (len (tasks e ! i)) s1"
      have "SyncNcclTasks (Suc i) e ?s2 =
          FinishOrProceed_report_each (drop (Suc i) (zip (tasks e) (queues e))) ?s2"
        using 1(1) [OF True Inr [unfolded y] refl] 1(2) True by simp
      then show ?thesis using True Inr y 1(2)
        by (subst SyncNcclTasks.simps) (simp add: d)
    qed
  qed
qed


lemma NonRootNcclIssue_frame:
  "NonRootNcclIssue this_op task s = Inr (u, s') \<Longrightarrow> s' = s\<lparr>trace := trace s'\<rparr>"
  by (auto simp: NonRootNcclIssue_def emit_def split: option.splits if_splits)

lemma NonRootNcclSignals_effect:
  "NonRootNcclSignals sigs e s = Inr (e', s') \<Longrightarrow>
   queues e' = queues e \<and> cuda_event e' = cuda_event e \<and>
   nccl_groups s' = nccl_groups s \<and> events_created s' = events_created s"
proof (induction sigs arbitrary: e s)
  case Nil
  then show ?case by simp
next
  case (Cons a sigs)
  obtain sender msg where a: "a = (sender, msg)" by (cases a)
  let ?s0 = "s\<lparr>recv_queue := sigs\<rparr>"
  show ?case
  proof (cases "signal msg = DO_GROUP")
    case True
    then show ?thesis using Cons.prems a by (auto simp: Let_def split: if_splits)
  next
    case False
    let ?op = "if signal msg = DO_BROADCAST then BROADCAST else REDUCE"
    obtain task q' where g: "getTask_key (scheduled_queues ?s0 ?op) (msg_key msg) = Some (task, q')"
      using Cons.prems a False by (auto simp: Let_def split: if_splits option.splits)
    let ?s1 = "?s0\<lparr>scheduled_queues := (scheduled_queues ?s0)(?op := q')\<rparr>"
    obtain u s2 where iss: "NonRootNcclIssue ?op task ?s1 = Inr (u, s2)"
      and rec: "NonRootNcclSignals sigs (e\<lparr>tasks := tasks e @ [task]\<rparr>) s2 = Inr (e', s')"
      using Cons.prems a False g
      by (auto simp: Let_def split: if_splits sum.splits)
    have s2: "s2 = ?s1\<lparr>trace := trace s2\<rparr>" using iss by (rule NonRootNcclIssue_frame)
    have "nccl_groups s2 = nccl_groups s" "events_created s2 = events_created s"
      by (subst s2, simp)+
    then show ?thesis using Cons.IH [OF rec] by simp
  qed
qed

lemma RunNonRootNcclLoopOnce_group:
  assumes "RunNonRootNcclLoopOnce s = Inr (r, s')"
  shows "\<exists>g. nccl_groups s' = nccl_groups s @ [g] \<and> queues g = []"
proof -
  obtain e1 s1 where sig:
    "NonRootNcclSignals (recv_queue s) new_NcclGroupEntry (emit E_ncclGroupStart s) = Inr (e1, s1)"
    using assms by (auto simp: RunNonRootNcclLoopOnce_def split: if_splits sum.splits)
  have eff: "queues e1 = []" "nccl_groups s1 = nccl_groups s"
    using NonRootNcclSignals_effect [OF sig] by (simp_all add: new_NcclGroupEntry_def emit_def)
  have "nccl_groups s' = nccl_groups s @ [e1\<lparr>cuda_event := events_created s1\<rparr>]"
    using assms sig eff
    by (auto simp: RunNonRootNcclLoopOnce_def Let_def EnqueueNcclGroup_def emit_def
        split: if_splits)
  then show ?thesis using eff(1) by simp
qed

lemma RunRootNcclLoopOnce_group:
  assumes "RunRootNcclLoopOnce s = Inr (r, s')"
  shows "nccl_groups s' = nccl_groups s \<or>
    (\<exists>g. nccl_groups s' = nccl_groups s @ [g] \<and> length (queues g) = length (tasks g) \<and>
         (\<forall>(t, q)\<in>set (zip (tasks g) (queues g)). t \<in> set (sq (scheduled_queues s q))))"
proof -
  let ?g = "emit E_ncclGroupStart s"
  obtain e1 s1 e2 s2 where
    p1: "RootNcclPull REDUCE (nat (nccl_group_size s)) new_NcclGroupEntry ?g = Inr (e1, s1)"
    and p2: "RootNcclPull BROADCAST (nat (nccl_group_size s1)) e1 s1 = Inr (e2, s2)"
    using assms by (auto simp: RunRootNcclLoopOnce_def split: if_splits sum.splits)
  obtain ts1 q1 evs1 where e1:
    "tasks e1 = tasks new_NcclGroupEntry @ ts1"
    "queues e1 = queues new_NcclGroupEntry @ replicate (length ts1) REDUCE"
    "set ts1 \<subseteq> set (sq (scheduled_queues ?g REDUCE))"
    "s1 = ?g\<lparr>scheduled_queues := (scheduled_queues ?g)(REDUCE := q1), trace := trace ?g @ evs1\<rparr>"
    using RootNcclPull_effect [OF p1] by blast
  obtain ts2 q2 evs2 where e2:
    "tasks e2 = tasks e1 @ ts2"
    "queues e2 = queues e1 @ replicate (length ts2) BROADCAST"
    "set ts2 \<subseteq> set (sq (scheduled_queues s1 BROADCAST))"
    "s2 = s1\<lparr>scheduled_queues := (scheduled_queues s1)(BROADCAST := q2), trace := trace s1 @ evs2\<rparr>"
    using RootNcclPull_effect [OF p2] by blast
  have t: "tasks e2 = ts1 @ ts2" "queues e2 = replicate (length ts1) REDUCE @ replicate (length ts2) BROADCAST"
    using e1 e2 by (simp_all add: new_NcclGroupEntry_def)
  have in1: "set ts1 \<subseteq> set (sq (scheduled_queues s REDUCE))" using e1(3) by (simp add: emit_def)
  have in2: "set ts2 \<subseteq> set (sq (scheduled_queues s BROADCAST))"
    using e2(3) by (subst (asm) e1(4)) (simp add: emit_def)
  have ng: "nccl_groups s2 = nccl_groups s"
    by (subst e2(4), subst e1(4)) (simp add: emit_def)
  show ?thesis
  proof (cases "tasks e2 = []")
    case True
    then have "nccl_groups s' = nccl_groups s"
      using assms p1 p2 ng
      by (auto simp: RunRootNcclLoopOnce_def emit_def split: if_splits)
    then show ?thesis by simp
  next
    case False
    let ?grp = "e2\<lparr>cuda_event := events_created s2\<rparr>"
    have "nccl_groups s' = nccl_groups s @ [?grp]"
      using assms p1 p2 ng False
      by (auto simp: RunRootNcclLoopOnce_def Let_def EnqueueNcclGroup_def emit_def
          split: if_splits)
    moreover have "length (queues ?grp) = length (tasks ?grp)" using t by simp
    moreover have "\<forall>(x, q)\<in>set (zip (tasks ?grp) (queues ?grp)). x \<in> set (sq (scheduled_queues s q))"
    proof -
      have a: "x \<in> set (sq (scheduled_queues s q))"
        if "(x, q) \<in> set (zip ts1 (replicate (length ts1) REDUCE))" for x q
      proof -
        have "x \<in> set ts1" and "q = REDUCE" using that by (auto dest: set_zip_leftD set_zip_rightD)
        then show ?thesis using in1 by auto
      qed
      have b: "x \<in> set (sq (scheduled_queues s q))"
        if "(x, q) \<in> set (zip ts2 (replicate (length ts2) BROADCAST))" for x q
      proof -
        have "x \<in> set ts2" and "q = BROADCAST" using that by (auto dest: set_zip_leftD set_zip_rightD)
        then show ?thesis using in2 by auto
      qed
      show ?thesis using a b by (auto simp: t)
    qed
    ultimately show ?thesis by blast
  qed
qed

lemma FinishOrProceed_no_report:
  assumes "FinishOrProceed t s = Inr (u, s')"
  shows "filter is_reportFinish (trace s') = filter is_reportFinish (trace s) \<and>
         (\<forall>op. finished (scheduled_queues s' op) = finished (scheduled_queues s op))"
  using assms
  by (auto simp: FinishOrProceed_def GetScheduledQueue_addTask_def emit_def addTask_def Let_def
      split: list.splits option.splits if_splits)

lemma FinishOrProceed_each_no_report:
  "FinishOrProceed_each ts s = Inr (u, s') \<Longrightarrow>
   filter is_reportFinish (trace s') = filter is_reportFinish (trace s) \<and>
   (\<forall>op. finished (scheduled_queues s' op) = finished (scheduled_queues s op))"
proof (induction ts arbitrary: s)
  case Nil
  then show ?case by simp
next
  case (Cons t ts)
  obtain v s1 where f: "FinishOrProceed t s = Inr (v, s1)"
    and r: "FinishOrProceed_each ts s1 = Inr (u, s')"
    using Cons.prems by (auto split: sum.splits)
  show ?case using FinishOrProceed_no_report [OF f] Cons.IH [OF r] by simp
qed

lemma DequeueNcclGroup_Some:
  "DequeueNcclGroup s = Some (e, s0) \<Longrightarrow> s0 = s\<lparr>nccl_groups := tl (nccl_groups s)\<rparr> \<and>
     nccl_groups s = e # nccl_groups s0"
  by (auto simp: DequeueNcclGroup_def split: list.splits)

lemma RunSyncNcclOnce_Some:
  assumes "DequeueNcclGroup s = Some (e, s0)"
  shows "RunSyncNcclOnce s =
     (case SyncNcclTasks 0 e (emit (E_cudaEventSynchronize (cuda_event e)) s0) of
        Inl x \<Rightarrow> Inl x
      | Inr (_, s1) \<Rightarrow> Inr (True, emit (E_cudaEventDestroy (cuda_event e)) s1))"
  unfolding RunSyncNcclOnce_def assms by simp

lemma non_root_loop_example:
  "RunNonRootNcclLoopOnce non_root_with_broadcast_item =
     Inr (True,
        (example_global False)
          \<lparr>scheduled_queues := (\<lambda>_. empty_queue),
           nccl_groups := [non_root_group],
           events_created := 1,
           trace := [E_ncclGroupStart,
                     E_ncclBroadcast 24 2 0,
                     E_ncclGroupEnd,
                     E_cudaEventCreate 0,
                     E_cudaEventRecord 0,
                     E_EnqueueNcclGroup non_root_group]\<rparr>)"
  by (simp add: RunNonRootNcclLoopOnce_def non_root_with_broadcast_item_def with_queue_def
      example_global_def emit_def getTask_key_def example_task_def NonRootNcclIssue_def
      example_tensor_def CPU_DEVICE_ID_def cdiv_def new_NcclGroupEntry_def non_root_group_def
      empty_queue_def Let_def const_upd_same EnqueueNcclGroup_def)

lemma non_root_after_nccl_eq:
  "non_root_after_nccl =
        (example_global False)
          \<lparr>scheduled_queues := (\<lambda>_. empty_queue),
           nccl_groups := [non_root_group],
           events_created := 1,
           trace := [E_ncclGroupStart,
                     E_ncclBroadcast 24 2 0,
                     E_ncclGroupEnd,
                     E_cudaEventCreate 0,
                     E_cudaEventRecord 0,
                     E_EnqueueNcclGroup non_root_group]\<rparr>"
  unfolding non_root_after_nccl_def non_root_loop_example by (simp add: state_of_def)

lemma non_root_sync_example:
  "RunSyncNcclOnce non_root_after_nccl =
     Inr (True,
        (example_global False)
          \<lparr>scheduled_queues := (\<lambda>_. empty_queue),
           counters := [0 \<mapsto> 1],
           events_created := 1,
           trace := [E_ncclGroupStart,
                     E_ncclBroadcast 24 2 0,
                     E_ncclGroupEnd,
                     E_cudaEventCreate 0,
                     E_cudaEventRecord 0,
                     E_EnqueueNcclGroup non_root_group,
                     E_cudaEventSynchronize 0,
                     E_cudaEventDestroy 0]\<rparr>)"
  unfolding non_root_after_nccl_eq
  by (simp add: RunSyncNcclOnce_def DequeueNcclGroup_def SyncNcclTasks_no_queues
      non_root_group_def example_global_def emit_def FinishOrProceed_def example_task_def)

lemma root_after_nccl_eq:
  "root_after_nccl =
        (example_global True)
          \<lparr>scheduled_queues := (\<lambda>_. empty_queue),
           nccl_groups := [root_group],
           events_created := 1,
           trace := [E_ncclGroupStart,
                     E_broadcastSignal 0 \<lparr>src = 0, signal = DO_REDUCE, msg_key = 0\<rparr>,
                     E_ncclReduce 0 2 0,
                     E_broadcastSignal 0 (DO_GROUP_msg 0),
                     E_ncclGroupEnd,
                     E_cudaEventCreate 0,
                     E_cudaEventRecord 0,
                     E_EnqueueNcclGroup root_group]\<rparr>"
  unfolding root_after_nccl_def root_loop_example by (simp add: state_of_def root_group_def)

text \<open>
  Claim C5 says that on every rank, root and non-root alike, the sync stage calls
  \<open>reportFinish\<close> with the item's length on the queue the item came from. The non-root
  below runs its NCCL iteration on an item of 8 bytes from the BROADCAST queue and then
  the sync iteration: the item is advanced and the event destroyed, but no
  \<open>reportFinish\<close> is called and the credit of the BROADCAST queue stays 0.
\<close>

theorem RunSyncNcclOnce_non_root_counterexample:
  "stopped (RunNonRootNcclLoopOnce non_root_with_broadcast_item) = None \<and>
   tasks (hd (nccl_groups non_root_after_nccl)) = [example_task 3 [BROADCAST]] \<and>
   len (example_task 3 [BROADCAST]) = 8 \<and>
   stopped (RunSyncNcclOnce non_root_after_nccl) = None \<and>
   trace (state_of (RunSyncNcclOnce non_root_after_nccl)) =
     [E_ncclGroupStart,
      E_ncclBroadcast 24 2 0,
      E_ncclGroupEnd,
      E_cudaEventCreate 0,
      E_cudaEventRecord 0,
      E_EnqueueNcclGroup non_root_group,
      E_cudaEventSynchronize 0,
      E_cudaEventDestroy 0] \<and>
   E_reportFinish BROADCAST 8 \<notin> set (trace (state_of (RunSyncNcclOnce non_root_after_nccl))) \<and>
   finished (scheduled_queues (state_of (RunSyncNcclOnce non_root_after_nccl)) BROADCAST) = 0"
  unfolding non_root_sync_example non_root_loop_example
  by (simp add: non_root_after_nccl_eq stopped_def state_of_def non_root_group_def
      example_task_def empty_queue_def)

lemma FinishOrProceed_frame:
  assumes "FinishOrProceed t s = Inr (u, s')"
  shows "(\<exists>mid. trace s' = trace s @ mid) \<and> nccl_groups s' = nccl_groups s \<and>
         dom (counters s') = dom (counters s)"
  using assms
  by (auto simp: FinishOrProceed_def GetScheduledQueue_addTask_def emit_def Let_def
      split: list.splits option.splits if_splits)

lemma reportFinish_effect:
  "filter is_reportFinish (trace (GetScheduledQueue_reportFinish q n s)) =
     filter is_reportFinish (trace s) @ [E_reportFinish q n] \<and>
   (\<forall>op. finished (scheduled_queues (GetScheduledQueue_reportFinish q n s) op) =
         finished (scheduled_queues s op) + (if q = op then n else 0)) \<and>
   trace (GetScheduledQueue_reportFinish q n s) = trace s @ [E_reportFinish q n] \<and>
   nccl_groups (GetScheduledQueue_reportFinish q n s) = nccl_groups s \<and>
   counters (GetScheduledQueue_reportFinish q n s) = counters s"
  by (simp add: GetScheduledQueue_reportFinish_def emit_def reportFinish_def)

lemma SyncNcclTasks_frame:
  "SyncNcclTasks i e s = Inr (u, s') \<Longrightarrow>
   (\<exists>mid. trace s' = trace s @ mid) \<and> nccl_groups s' = nccl_groups s"
proof (induction i e s rule: SyncNcclTasks.induct)
  case (1 i e s)
  show ?case
  proof (cases "i < length (tasks e)")
    case False
    then show ?thesis using 1(2) by (subst (asm) SyncNcclTasks.simps) simp
  next
    case True
    obtain v s1 where f: "FinishOrProceed (tasks e ! i) s = Inr (v, s1)"
      using 1(2) True by (subst (asm) SyncNcclTasks.simps) (auto split: sum.splits)
    let ?s2 = "if length (queues e) > i
                then GetScheduledQueue_reportFinish (queues e ! i) (len (tasks e ! i)) s1
                else s1"
    have r: "SyncNcclTasks (Suc i) e ?s2 = Inr (u, s')"
      using 1(2) True f by (subst (asm) SyncNcclTasks.simps) simp
    obtain m1 where m1: "trace s1 = trace s @ m1" and g1: "nccl_groups s1 = nccl_groups s"
      using FinishOrProceed_frame [OF f] by blast
    have "(\<exists>m2. trace ?s2 = trace s1 @ m2) \<and> nccl_groups ?s2 = nccl_groups s1"
      using reportFinish_effect [of "queues e ! i" "len (tasks e ! i)" s1] by simp
    then obtain m2 where m2: "trace ?s2 = trace s1 @ m2" and g2: "nccl_groups ?s2 = nccl_groups s1"
      by blast
    obtain m3 where m3: "trace s' = trace ?s2 @ m3" and g3: "nccl_groups s' = nccl_groups ?s2"
      using 1(1) [OF True f [symmetric, THEN sym] refl r] by blast
    have "trace s' = trace s @ (m1 @ m2 @ m3)" unfolding m3 m2 m1 by simp
    then show ?thesis using g1 g2 g3 by metis
  qed
qed

lemma FinishOrProceed_total:
  assumes "queue_list t \<noteq> []"
    and "length (queue_list t) = 1 \<longrightarrow> (\<exists>c. counter_ptr t = Some c \<and> c \<in> dom (counters s))"
  shows "\<exists>s'. FinishOrProceed t s = Inr ((), s')"
proof (cases "queue_list t")
  case Nil
  then show ?thesis using assms(1) by simp
next
  case (Cons this_op rest)
  show ?thesis
  proof (cases rest)
    case Nil
    then obtain c v where "counter_ptr t = Some c" "counters s c = Some v"
      using assms(2) Cons by auto
    then show ?thesis using Cons Nil FinishOrProceed_finish [of t this_op c s v] by simp
  next
    case (Cons nxt more)
    then show ?thesis using \<open>queue_list t = this_op # rest\<close> FinishOrProceed_proceed by blast
  qed
qed

lemma SyncNcclTasks_total:
  "\<forall>t\<in>set (tasks e). queue_list t \<noteq> [] \<and>
      (length (queue_list t) = 1 \<longrightarrow> (\<exists>c. counter_ptr t = Some c \<and> c \<in> dom (counters s))) \<Longrightarrow>
   \<exists>s'. SyncNcclTasks i e s = Inr ((), s')"
proof (induction i e s rule: SyncNcclTasks.induct)
  case (1 i e s)
  show ?case
  proof (cases "i < length (tasks e)")
    case False
    then show ?thesis by (subst SyncNcclTasks.simps) simp
  next
    case True
    then have mem: "tasks e ! i \<in> set (tasks e)" by simp
    obtain s1 where f: "FinishOrProceed (tasks e ! i) s = Inr ((), s1)"
      using FinishOrProceed_total [of "tasks e ! i" s] 1(2) mem by blast
    let ?s2 = "if length (queues e) > i
                then GetScheduledQueue_reportFinish (queues e ! i) (len (tasks e ! i)) s1
                else s1"
    have d: "dom (counters ?s2) = dom (counters s)"
      using FinishOrProceed_frame [OF f] reportFinish_effect [of "queues e ! i" "len (tasks e ! i)" s1]
      by simp
    have "\<forall>t\<in>set (tasks e). queue_list t \<noteq> [] \<and>
      (length (queue_list t) = 1 \<longrightarrow> (\<exists>c. counter_ptr t = Some c \<and> c \<in> dom (counters ?s2)))"
      unfolding d using 1(2) .
    from 1(1) [OF True f [symmetric, THEN sym] refl this]
    obtain s' where "SyncNcclTasks (Suc i) e ?s2 = Inr ((), s')" by blast
    then show ?thesis using True f by (subst SyncNcclTasks.simps) simp
  qed
qed

text \<open>
  Claim C5, amended. For every dequeued NCCL group entry, the SyncNccl stage first blocks
  on the group's accelerator event, then calls \<open>FinishOrProceed\<close> for every item of the
  group in order, and finally destroys the event; the iteration returns whenever every
  item has a stage left and, at its last stage, an allocated counter. For an item for
  which the entry has recorded a queue (\<open>queues.size() > i\<close>) it calls \<open>reportFinish\<close> with
  the item's length on that queue after the item is advanced: the reports of the
  iteration are exactly these, in the order of the items, and the credit of every
  queue grows by the lengths of the items recorded with it. Every entry built by the
  root's loop has one queue per item, the queue the item was pulled from. When the
  entry has no queues the stage calls no \<open>reportFinish\<close> and no queue's credit changes;
  every entry built by the non-root's loop is such an entry.
\<close>

theorem RunSyncNcclOnce_advances_group:
  assumes "DequeueNcclGroup s = Some (e, s0)"
  shows "(length (queues e) = length (tasks e) \<longrightarrow>
           RunSyncNcclOnce s =
             (case FinishOrProceed_report_each (zip (tasks e) (queues e))
                     (emit (E_cudaEventSynchronize (cuda_event e)) s0) of
                Inl x \<Rightarrow> Inl x
              | Inr (_, s1) \<Rightarrow> Inr (True, emit (E_cudaEventDestroy (cuda_event e)) s1))) \<and>
         (queues e = [] \<longrightarrow>
           RunSyncNcclOnce s =
             (case FinishOrProceed_each (tasks e)
                     (emit (E_cudaEventSynchronize (cuda_event e)) s0) of
                Inl x \<Rightarrow> Inl x
              | Inr (_, s1) \<Rightarrow> Inr (True, emit (E_cudaEventDestroy (cuda_event e)) s1))) \<and>
         (queues e = [] \<and> RunSyncNcclOnce s = Inr (r, s') \<longrightarrow>
           filter is_reportFinish (trace s') = filter is_reportFinish (trace s) \<and>
           (\<forall>op. finished (scheduled_queues s' op) = finished (scheduled_queues s op))) \<and>
         (RunRootNcclLoopOnce t = Inr (r1, t1) \<longrightarrow>
            nccl_groups t1 = nccl_groups t \<or>
            (\<exists>g. nccl_groups t1 = nccl_groups t @ [g] \<and> length (queues g) = length (tasks g) \<and>
                 (\<forall>(x, q)\<in>set (zip (tasks g) (queues g)). x \<in> set (sq (scheduled_queues t q))))) \<and>
         (RunNonRootNcclLoopOnce t = Inr (r2, t2) \<longrightarrow>
            (\<exists>g. nccl_groups t2 = nccl_groups t @ [g] \<and> queues g = [])) \<and>
         (RunSyncNcclOnce s = Inr (r, s') \<longrightarrow>
           filter is_reportFinish (trace s') =
             filter is_reportFinish (trace s)
             @ map (\<lambda>(x, q). E_reportFinish q (len x)) (zip (tasks e) (queues e)) \<and>
           (\<forall>op. finished (scheduled_queues s' op) =
                 finished (scheduled_queues s op)
                 + (\<Sum>(x, q)\<leftarrow>zip (tasks e) (queues e). if q = op then len x else 0))) \<and>
         (RunSyncNcclOnce s = Inr (r, s') \<longrightarrow>
           r = True \<and>
           (\<exists>mid. trace s' = trace s @ E_cudaEventSynchronize (cuda_event e) # mid
                                  @ [E_cudaEventDestroy (cuda_event e)]) \<and>
           nccl_groups s = e # nccl_groups s') \<and>
         ((\<forall>x\<in>set (tasks e). queue_list x \<noteq> [] \<and>
              (length (queue_list x) = 1 \<longrightarrow>
                 (\<exists>c. counter_ptr x = Some c \<and> c \<in> dom (counters s)))) \<longrightarrow>
           (\<exists>s'. RunSyncNcclOnce s = Inr (True, s')))"
proof (intro conjI impI)
  assume a: "length (queues e) = length (tasks e)"
  show "RunSyncNcclOnce s =
             (case FinishOrProceed_report_each (zip (tasks e) (queues e))
                     (emit (E_cudaEventSynchronize (cuda_event e)) s0) of
                Inl x \<Rightarrow> Inl x
              | Inr (_, s1) \<Rightarrow> Inr (True, emit (E_cudaEventDestroy (cuda_event e)) s1))"
    unfolding RunSyncNcclOnce_Some [OF assms] SyncNcclTasks_all_queues [OF a] by simp
next
  assume a: "queues e = []"
  show "RunSyncNcclOnce s =
             (case FinishOrProceed_each (tasks e)
                     (emit (E_cudaEventSynchronize (cuda_event e)) s0) of
                Inl x \<Rightarrow> Inl x
              | Inr (_, s1) \<Rightarrow> Inr (True, emit (E_cudaEventDestroy (cuda_event e)) s1))"
    unfolding RunSyncNcclOnce_Some [OF assms] SyncNcclTasks_no_queues [OF a] by simp
next
  assume h: "queues e = [] \<and> RunSyncNcclOnce s = Inr (r, s')"
  let ?s1 = "emit (E_cudaEventSynchronize (cuda_event e)) s0"
  have run: "(case FinishOrProceed_each (tasks e) ?s1 of
                Inl x \<Rightarrow> Inl x
              | Inr (_, s1) \<Rightarrow> Inr (True, emit (E_cudaEventDestroy (cuda_event e)) s1)) =
             Inr (r, s')"
  proof -
    from h have q: "queues e = []" and rs: "RunSyncNcclOnce s = Inr (r, s')" by simp_all
    show ?thesis
      using rs unfolding RunSyncNcclOnce_Some [OF assms] SyncNcclTasks_no_queues [OF q] drop_0 .
  qed
  obtain u s2 where f: "FinishOrProceed_each (tasks e) ?s1 = Inr (u, s2)"
    and s': "s' = emit (E_cudaEventDestroy (cuda_event e)) s2"
  proof (cases "FinishOrProceed_each (tasks e) ?s1")
    case (Inl x)
    then show ?thesis using run by simp
  next
    case (Inr y)
    then show ?thesis using run that by (cases y) simp
  qed
  have s0: "s0 = s\<lparr>nccl_groups := tl (nccl_groups s)\<rparr>"
    using DequeueNcclGroup_Some [OF assms] by (rule conjunct1)
  have tr1: "trace ?s1 = trace s @ [E_cudaEventSynchronize (cuda_event e)]"
    and sq1: "scheduled_queues ?s1 = scheduled_queues s"
    by (subst s0, simp add: emit_def)+
  have tr': "trace s' = trace s2 @ [E_cudaEventDestroy (cuda_event e)]"
    and sq': "scheduled_queues s' = scheduled_queues s2"
    by (subst s', simp add: emit_def)+
  note nr = FinishOrProceed_each_no_report [OF f]
  have "filter is_reportFinish (trace s') = filter is_reportFinish (trace s2)"
    unfolding tr' by simp
  also have "\<dots> = filter is_reportFinish (trace ?s1)" using nr by (rule conjunct1)
  also have "\<dots> = filter is_reportFinish (trace s)" unfolding tr1 by simp
  finally show "filter is_reportFinish (trace s') = filter is_reportFinish (trace s)" .
  show "\<forall>op. finished (scheduled_queues s' op) = finished (scheduled_queues s op)"
    unfolding sq' sq1 [symmetric] using nr by (rule conjunct2)
next
  assume "RunRootNcclLoopOnce t = Inr (r1, t1)"
  then show "nccl_groups t1 = nccl_groups t \<or>
            (\<exists>g. nccl_groups t1 = nccl_groups t @ [g] \<and> length (queues g) = length (tasks g) \<and>
                 (\<forall>(x, q)\<in>set (zip (tasks g) (queues g)). x \<in> set (sq (scheduled_queues t q))))"
    by (rule RunRootNcclLoopOnce_group)
next
  assume "RunNonRootNcclLoopOnce t = Inr (r2, t2)"
  then show "\<exists>g. nccl_groups t2 = nccl_groups t @ [g] \<and> queues g = []"
    by (rule RunNonRootNcclLoopOnce_group)
next
  assume rs: "RunSyncNcclOnce s = Inr (r, s')"
  let ?s1 = "emit (E_cudaEventSynchronize (cuda_event e)) s0"
  let ?tqs = "zip (tasks e) (queues e)"
  have run: "(case SyncNcclTasks 0 e ?s1 of
                Inl x \<Rightarrow> Inl x
              | Inr (_, s1) \<Rightarrow> Inr (True, emit (E_cudaEventDestroy (cuda_event e)) s1)) =
             Inr (r, s')"
    using rs unfolding RunSyncNcclOnce_Some [OF assms] .
  obtain u s2 where f: "SyncNcclTasks 0 e ?s1 = Inr (u, s2)"
    and s': "s' = emit (E_cudaEventDestroy (cuda_event e)) s2"
  proof (cases "SyncNcclTasks 0 e ?s1")
    case (Inl x)
    then show ?thesis using run by simp
  next
    case (Inr y)
    then show ?thesis using run that by (cases y) simp
  qed
  have s0: "s0 = s\<lparr>nccl_groups := tl (nccl_groups s)\<rparr>"
    using DequeueNcclGroup_Some [OF assms] by (rule conjunct1)
  have tr1: "trace ?s1 = trace s @ [E_cudaEventSynchronize (cuda_event e)]"
    and sq1: "scheduled_queues ?s1 = scheduled_queues s"
    by (subst s0, simp add: emit_def)+
  have tr': "trace s' = trace s2 @ [E_cudaEventDestroy (cuda_event e)]"
    and sq': "scheduled_queues s' = scheduled_queues s2"
    by (subst s', simp add: emit_def)+
  have rf: "filter is_reportFinish (trace (GetScheduledQueue_reportFinish q n x)) =
              filter is_reportFinish (trace x) @ [E_reportFinish q n] \<and>
            (\<forall>op. finished (scheduled_queues (GetScheduledQueue_reportFinish q n x) op) =
                  finished (scheduled_queues x op) + (if q = op then n else 0))"
    for q n x
    by (simp add: GetScheduledQueue_reportFinish_def emit_def reportFinish_def)
  have reports: "filter is_reportFinish (trace x') =
       filter is_reportFinish (trace x)
       @ map (\<lambda>(y, q). E_reportFinish q (len y)) (drop i (zip (tasks g) (queues g))) \<and>
     (\<forall>op. finished (scheduled_queues x' op) =
           finished (scheduled_queues x op)
           + (\<Sum>(y, q)\<leftarrow>drop i (zip (tasks g) (queues g)). if q = op then len y else 0))"
    if "SyncNcclTasks i g x = Inr (w, x')" for i g x w x'
    using that
  proof (induction i g x rule: SyncNcclTasks.induct)
    case (1 i g x)
    show ?case
    proof (cases "i < length (tasks g)")
      case False
      then have "x' = x" using 1(2) by (subst (asm) SyncNcclTasks.simps) simp
      then show ?thesis using False by simp
    next
      case True
      obtain v x1 where fp: "FinishOrProceed (tasks g ! i) x = Inr (v, x1)"
        using 1(2) True by (subst (asm) SyncNcclTasks.simps) (auto split: sum.splits)
      let ?x2 = "if length (queues g) > i
                  then GetScheduledQueue_reportFinish (queues g ! i) (len (tasks g ! i)) x1
                  else x1"
      have rc: "SyncNcclTasks (Suc i) g ?x2 = Inr (w, x')"
        using 1(2) True fp by (subst (asm) SyncNcclTasks.simps) simp
      note n = FinishOrProceed_no_report [OF fp]
      note IH = 1(1) [OF True fp [symmetric, THEN sym] refl rc]
      show ?thesis
      proof (cases "i < length (queues g)")
        case q: True
        have d: "drop i (zip (tasks g) (queues g)) =
            (tasks g ! i, queues g ! i) # drop (Suc i) (zip (tasks g) (queues g))"
          using True q by (simp add: Cons_nth_drop_Suc [symmetric])
        have x2: "?x2 = GetScheduledQueue_reportFinish (queues g ! i) (len (tasks g ! i)) x1"
          using q by simp
        note ef = rf [of "queues g ! i" "len (tasks g ! i)" x1]
        have "filter is_reportFinish (trace x') =
            (filter is_reportFinish (trace x) @ [E_reportFinish (queues g ! i) (len (tasks g ! i))])
            @ map (\<lambda>(y, q). E_reportFinish q (len y)) (drop (Suc i) (zip (tasks g) (queues g)))"
          using IH ef n unfolding x2 by simp
        moreover have "\<forall>op. finished (scheduled_queues x' op) =
            finished (scheduled_queues x op) + (if queues g ! i = op then len (tasks g ! i) else 0)
            + (\<Sum>(y, q)\<leftarrow>drop (Suc i) (zip (tasks g) (queues g)). if q = op then len y else 0)"
          using IH ef n unfolding x2 by simp
        ultimately show ?thesis unfolding d by simp
      next
        case q: False
        have d: "drop i (zip (tasks g) (queues g)) = []"
          "drop (Suc i) (zip (tasks g) (queues g)) = []"
          using q by simp_all
        have x2: "?x2 = x1" using q by simp
        show ?thesis using IH n unfolding x2 d by simp
      qed
    qed
  qed
  note ef = reports [OF f, unfolded drop_0]
  have "filter is_reportFinish (trace s') = filter is_reportFinish (trace s2)"
    unfolding tr' by simp
  also have "\<dots> = filter is_reportFinish (trace ?s1)
                   @ map (\<lambda>(x, q). E_reportFinish q (len x)) ?tqs"
    using ef by (rule conjunct1)
  also have "filter is_reportFinish (trace ?s1) = filter is_reportFinish (trace s)"
    unfolding tr1 by simp
  finally show "filter is_reportFinish (trace s') =
             filter is_reportFinish (trace s)
             @ map (\<lambda>(x, q). E_reportFinish q (len x)) (zip (tasks e) (queues e))" .
  show "\<forall>op. finished (scheduled_queues s' op) =
                 finished (scheduled_queues s op)
                 + (\<Sum>(x, q)\<leftarrow>zip (tasks e) (queues e). if q = op then len x else 0)"
    unfolding sq' sq1 [symmetric] using ef by (rule conjunct2)
next
  assume rs: "RunSyncNcclOnce s = Inr (r, s')"
  let ?s1 = "emit (E_cudaEventSynchronize (cuda_event e)) s0"
  have run: "(case SyncNcclTasks 0 e ?s1 of
                Inl x \<Rightarrow> Inl x
              | Inr (_, s1) \<Rightarrow> Inr (True, emit (E_cudaEventDestroy (cuda_event e)) s1)) =
             Inr (r, s')"
    using rs unfolding RunSyncNcclOnce_Some [OF assms] .
  obtain u s2 where f: "SyncNcclTasks 0 e ?s1 = Inr (u, s2)"
    and s': "s' = emit (E_cudaEventDestroy (cuda_event e)) s2" and r: "r = True"
  proof (cases "SyncNcclTasks 0 e ?s1")
    case (Inl x)
    then show ?thesis using run by simp
  next
    case (Inr y)
    then show ?thesis using run that by (cases y) simp
  qed
  have dq1: "s0 = s\<lparr>nccl_groups := tl (nccl_groups s)\<rparr>"
    using DequeueNcclGroup_Some [OF assms] by (rule conjunct1)
  have dq2: "nccl_groups s = e # nccl_groups s0"
    using DequeueNcclGroup_Some [OF assms] by (rule conjunct2)
  have tr1: "trace ?s1 = trace s @ [E_cudaEventSynchronize (cuda_event e)]"
    by (subst dq1, simp add: emit_def)
  have g1: "nccl_groups ?s1 = nccl_groups s0" by (simp add: emit_def)
  obtain mid where mid: "trace s2 = trace ?s1 @ mid" and g2: "nccl_groups s2 = nccl_groups ?s1"
    using SyncNcclTasks_frame [OF f] by blast
  have tr': "trace s' = trace s2 @ [E_cudaEventDestroy (cuda_event e)]"
    and g': "nccl_groups s' = nccl_groups s2"
    by (subst s', simp add: emit_def)+
  show "r = True" by (rule r)
  have "trace s' = trace s @ E_cudaEventSynchronize (cuda_event e) # mid
                                  @ [E_cudaEventDestroy (cuda_event e)]"
    unfolding tr' mid tr1 by simp
  then show "\<exists>mid. trace s' = trace s @ E_cudaEventSynchronize (cuda_event e) # mid
                                  @ [E_cudaEventDestroy (cuda_event e)]" by blast
  show "nccl_groups s = e # nccl_groups s'"
    unfolding g' g2 g1 by (rule dq2)
next
  assume ok: "\<forall>x\<in>set (tasks e). queue_list x \<noteq> [] \<and>
              (length (queue_list x) = 1 \<longrightarrow>
                 (\<exists>c. counter_ptr x = Some c \<and> c \<in> dom (counters s)))"
  let ?s1 = "emit (E_cudaEventSynchronize (cuda_event e)) s0"
  have s0: "s0 = s\<lparr>nccl_groups := tl (nccl_groups s)\<rparr>"
    using DequeueNcclGroup_Some [OF assms] by (rule conjunct1)
  have c: "counters ?s1 = counters s" by (subst s0, simp add: emit_def)
  have "\<forall>x\<in>set (tasks e). queue_list x \<noteq> [] \<and>
              (length (queue_list x) = 1 \<longrightarrow>
                 (\<exists>c. counter_ptr x = Some c \<and> c \<in> dom (counters ?s1)))"
    unfolding c using ok .
  then obtain s2 where "SyncNcclTasks 0 e ?s1 = Inr ((), s2)"
    using SyncNcclTasks_total by blast
  then show "\<exists>s'. RunSyncNcclOnce s = Inr (True, s')"
    unfolding RunSyncNcclOnce_Some [OF assms] by simp
qed

theorem RunSyncNcclOnce_advances_group_witness:
  "length (queues root_group) = length (tasks root_group) \<and> tasks root_group \<noteq> [] \<and>
   RunSyncNcclOnce root_after_nccl =
     (case FinishOrProceed_report_each (zip (tasks root_group) (queues root_group))
             (emit (E_cudaEventSynchronize (cuda_event root_group))
                (root_after_nccl\<lparr>nccl_groups := []\<rparr>)) of
        Inl x \<Rightarrow> Inl x
      | Inr (_, s1) \<Rightarrow> Inr (True, emit (E_cudaEventDestroy (cuda_event root_group)) s1)) \<and>
   queues non_root_group = [] \<and> tasks non_root_group \<noteq> [] \<and>
   RunSyncNcclOnce non_root_after_nccl =
     (case FinishOrProceed_each (tasks non_root_group)
             (emit (E_cudaEventSynchronize (cuda_event non_root_group))
                (non_root_after_nccl\<lparr>nccl_groups := []\<rparr>)) of
        Inl x \<Rightarrow> Inl x
      | Inr (_, s1) \<Rightarrow> Inr (True, emit (E_cudaEventDestroy (cuda_event non_root_group)) s1)) \<and>
   (\<forall>op. finished (scheduled_queues (state_of (RunSyncNcclOnce non_root_after_nccl)) op) =
         finished (scheduled_queues non_root_after_nccl op)) \<and>
   (\<exists>g. nccl_groups root_after_nccl = [g] \<and> length (queues g) = length (tasks g) \<and>
        (\<forall>(x, q)\<in>set (zip (tasks g) (queues g)).
           x \<in> set (sq (scheduled_queues root_with_reduce_item q)))) \<and>
   (\<exists>g. nccl_groups non_root_after_nccl = [g] \<and> queues g = []) \<and>
   stopped (RunSyncNcclOnce root_after_nccl) = None \<and>
   filter is_reportFinish (trace (state_of (RunSyncNcclOnce root_after_nccl))) =
     [E_reportFinish REDUCE 8] \<and>
   finished (scheduled_queues (state_of (RunSyncNcclOnce root_after_nccl)) REDUCE) = 8 \<and>
   finished (scheduled_queues (state_of (RunSyncNcclOnce root_after_nccl)) BROADCAST) = 0 \<and>
   trace (state_of (RunSyncNcclOnce root_after_nccl)) =
     trace root_after_nccl @
     [E_cudaEventSynchronize 0, E_addTask BROADCAST 0, E_reportFinish REDUCE 8,
      E_cudaEventDestroy 0]"
proof -
  have d1: "DequeueNcclGroup root_after_nccl =
      Some (root_group, root_after_nccl\<lparr>nccl_groups := []\<rparr>)"
    by (simp add: root_after_nccl_eq DequeueNcclGroup_def)
  have d2: "DequeueNcclGroup non_root_after_nccl =
      Some (non_root_group, non_root_after_nccl\<lparr>nccl_groups := []\<rparr>)"
    by (simp add: non_root_after_nccl_eq DequeueNcclGroup_def)
  have r1: "RunRootNcclLoopOnce root_with_reduce_item = Inr (True, root_after_nccl)"
    unfolding root_after_nccl_eq root_loop_example by (simp add: root_group_def)
  have r2: "RunNonRootNcclLoopOnce non_root_with_broadcast_item = Inr (True, non_root_after_nccl)"
    unfolding non_root_after_nccl_eq non_root_loop_example by simp
  have r3: "RunSyncNcclOnce non_root_after_nccl =
      Inr (True, state_of (RunSyncNcclOnce non_root_after_nccl))"
    unfolding non_root_sync_example by (simp add: state_of_def)
  have root_sync_example:
    "RunSyncNcclOnce root_after_nccl =
     Inr (True,
        (example_global True)
          \<lparr>scheduled_queues :=
             (\<lambda>_. empty_queue)
               (BROADCAST := \<lparr>sq = [example_task 0 [BROADCAST]], finished = 0\<rparr>,
                REDUCE := \<lparr>sq = [], finished = 8\<rparr>),
           events_created := 1,
           trace := [E_ncclGroupStart,
                     E_broadcastSignal 0 \<lparr>src = 0, signal = DO_REDUCE, msg_key = 0\<rparr>,
                     E_ncclReduce 0 2 0,
                     E_broadcastSignal 0 (DO_GROUP_msg 0),
                     E_ncclGroupEnd,
                     E_cudaEventCreate 0,
                     E_cudaEventRecord 0,
                     E_EnqueueNcclGroup root_group,
                     E_cudaEventSynchronize 0,
                     E_addTask BROADCAST 0,
                     E_reportFinish REDUCE 8,
                     E_cudaEventDestroy 0]\<rparr>)"
    unfolding root_after_nccl_eq
    by (simp add: RunSyncNcclOnce_def DequeueNcclGroup_def SyncNcclTasks_all_queues
        root_group_def example_global_def emit_def FinishOrProceed_def example_task_def
        GetScheduledQueue_addTask_def GetScheduledQueue_reportFinish_def addTask_def
        reportFinish_def empty_queue_def)
  have r4: "RunSyncNcclOnce root_after_nccl =
      Inr (True, state_of (RunSyncNcclOnce root_after_nccl))"
    unfolding root_sync_example by (simp add: state_of_def)
  have n: "nccl_groups root_with_reduce_item = []" "nccl_groups non_root_with_broadcast_item = []"
    "nccl_groups root_after_nccl \<noteq> []"
    by (simp_all add: root_with_reduce_item_def non_root_with_broadcast_item_def with_queue_def
        example_global_def root_after_nccl_eq)
  note A = RunSyncNcclOnce_advances_group [OF d1, where t = root_with_reduce_item
        and ?r1.0 = True and ?t1.0 = root_after_nccl and r = True
        and s' = "state_of (RunSyncNcclOnce root_after_nccl)"
        and ?r2.0 = True and ?t2.0 = root_after_nccl]
  note B = RunSyncNcclOnce_advances_group [OF d2, where t = non_root_with_broadcast_item
        and ?r2.0 = True and ?t2.0 = non_root_after_nccl and r = True
        and s' = "state_of (RunSyncNcclOnce non_root_after_nccl)"
        and ?r1.0 = True and ?t1.0 = non_root_after_nccl]
  have l1: "length (queues root_group) = length (tasks root_group)" "tasks root_group \<noteq> []"
    by (simp_all add: root_group_def)
  have l2: "queues non_root_group = []" "tasks non_root_group \<noteq> []"
    by (simp_all add: non_root_group_def)
  have a1: "RunSyncNcclOnce root_after_nccl =
     (case FinishOrProceed_report_each (zip (tasks root_group) (queues root_group))
             (emit (E_cudaEventSynchronize (cuda_event root_group))
                (root_after_nccl\<lparr>nccl_groups := []\<rparr>)) of
        Inl x \<Rightarrow> Inl x
      | Inr (_, s1) \<Rightarrow> Inr (True, emit (E_cudaEventDestroy (cuda_event root_group)) s1))"
    using A [THEN conjunct1] l1(1) by (rule mp)
  have a2: "\<exists>g. nccl_groups root_after_nccl = [g] \<and> length (queues g) = length (tasks g) \<and>
        (\<forall>(x, q)\<in>set (zip (tasks g) (queues g)).
           x \<in> set (sq (scheduled_queues root_with_reduce_item q)))"
    using A [THEN conjunct2, THEN conjunct2, THEN conjunct2, THEN conjunct1] r1 n by simp
  have a3: "filter is_reportFinish (trace (state_of (RunSyncNcclOnce root_after_nccl))) =
             filter is_reportFinish (trace root_after_nccl)
             @ map (\<lambda>(x, q). E_reportFinish q (len x)) (zip (tasks root_group) (queues root_group)) \<and>
           (\<forall>op. finished (scheduled_queues (state_of (RunSyncNcclOnce root_after_nccl)) op) =
                 finished (scheduled_queues root_after_nccl op)
                 + (\<Sum>(x, q)\<leftarrow>zip (tasks root_group) (queues root_group).
                      if q = op then len x else 0))"
    using A [THEN conjunct2, THEN conjunct2, THEN conjunct2, THEN conjunct2, THEN conjunct2,
        THEN conjunct1] r4 by blast
  have a4: "filter is_reportFinish (trace (state_of (RunSyncNcclOnce root_after_nccl))) =
     [E_reportFinish REDUCE 8]"
    "finished (scheduled_queues (state_of (RunSyncNcclOnce root_after_nccl)) REDUCE) = 8"
    "finished (scheduled_queues (state_of (RunSyncNcclOnce root_after_nccl)) BROADCAST) = 0"
    using a3 by (simp_all add: root_after_nccl_eq root_group_def example_task_def empty_queue_def
        DO_GROUP_msg_def)
  have a5: "stopped (RunSyncNcclOnce root_after_nccl) = None"
    by (subst r4) (simp add: stopped_def)
  have a6: "trace (state_of (RunSyncNcclOnce root_after_nccl)) =
     trace root_after_nccl @
     [E_cudaEventSynchronize 0, E_addTask BROADCAST 0, E_reportFinish REDUCE 8,
      E_cudaEventDestroy 0]"
    unfolding root_sync_example by (simp add: state_of_def root_after_nccl_eq)
  have b1: "RunSyncNcclOnce non_root_after_nccl =
     (case FinishOrProceed_each (tasks non_root_group)
             (emit (E_cudaEventSynchronize (cuda_event non_root_group))
                (non_root_after_nccl\<lparr>nccl_groups := []\<rparr>)) of
        Inl x \<Rightarrow> Inl x
      | Inr (_, s1) \<Rightarrow> Inr (True, emit (E_cudaEventDestroy (cuda_event non_root_group)) s1))"
    using B [THEN conjunct2, THEN conjunct1] l2(1) by (rule mp)
  have b2: "\<forall>op. finished (scheduled_queues (state_of (RunSyncNcclOnce non_root_after_nccl)) op) =
         finished (scheduled_queues non_root_after_nccl op)"
    using B [THEN conjunct2, THEN conjunct2, THEN conjunct1] r3 l2(1) by blast
  have b3: "\<exists>g. nccl_groups non_root_after_nccl = [g] \<and> queues g = []"
    using B [THEN conjunct2, THEN conjunct2, THEN conjunct2, THEN conjunct2, THEN conjunct1]
      r2 n by simp
  show ?thesis using l1 l2 a1 a2 b1 b2 b3 a5 a4 a6 by (intro conjI)
qed

subsection \<open>The coordinate stages and the signals of the root\<close>
















end
